theory Spec2Isabelle
  imports Main "HOL-Library.AList"
begin

section \<open>Clarity values and control flow\<close>

text \<open>
  The two contracts verified here are \<^verbatim>\<open>escrow-manager\<close> and \<^verbatim>\<open>dispute-resolution\<close>.
  A Clarity \<^verbatim>\<open>uint\<close> is an unsigned 128-bit integer. It is modelled as a natural number;
  \<^verbatim>\<open>+\<close>, \<^verbatim>\<open>-\<close> and \<^verbatim>\<open>*\<close> abort the transaction when the result leaves the range, and
  \<^verbatim>\<open>/\<close> when the divisor is zero, which the model writes out (\<open>uadd\<close>, \<open>usub\<close>,
  \<open>umul\<close>, \<open>udiv\<close>: \<open>RuntimeAbort\<close>). In a \<^verbatim>\<open>let\<close> the bindings are evaluated in order
  before the body, so an \<^verbatim>\<open>unwrap!\<close> or an addition in a binding comes before the
  \<^verbatim>\<open>asserts!\<close> of the body. A public function returns
  \<^verbatim>\<open>(ok v)\<close> and commits its writes, or returns \<^verbatim>\<open>(err uN)\<close> or aborts, and then nothing is
  written: the model returns \<open>Inr (v, s')\<close> with the new state or \<open>Inl e\<close> with no state.
  \<^verbatim>\<open>tx-sender\<close> and \<^verbatim>\<open>stacks-block-time\<close> are parameters of every call
  (\<open>sender\<close>, \<open>now\<close>).
\<close>

type_synonym principal = string

datatype error = Err nat | RuntimeAbort

type_synonym ('a, 's) response = "error + 'a \<times> 's"

definition UINT_MAX :: nat where
  "UINT_MAX = 2 ^ 128 - 1"

definition bnd :: "error + 'a \<Rightarrow> ('a \<Rightarrow> error + 'b) \<Rightarrow> error + 'b" where
  "bnd m k = (case m of Inl e \<Rightarrow> Inl e | Inr v \<Rightarrow> k v)"

definition uadd :: "nat \<Rightarrow> nat \<Rightarrow> error + nat" where
  "uadd a b = (if a + b \<le> UINT_MAX then Inr (a + b) else Inl RuntimeAbort)"

definition usub :: "nat \<Rightarrow> nat \<Rightarrow> error + nat" where
  "usub a b = (if b \<le> a then Inr (a - b) else Inl RuntimeAbort)"

definition umul :: "nat \<Rightarrow> nat \<Rightarrow> error + nat" where
  "umul a b = (if a * b \<le> UINT_MAX then Inr (a * b) else Inl RuntimeAbort)"

definition udiv :: "nat \<Rightarrow> nat \<Rightarrow> error + nat" where
  "udiv a b = (if b = 0 then Inl RuntimeAbort else Inr (a div b))"

definition asserts :: "bool \<Rightarrow> error \<Rightarrow> (error + 'b) \<Rightarrow> error + 'b" where
  "asserts c e k = (if c then k else Inl e)"

definition unwrap :: "'a option \<Rightarrow> error \<Rightarrow> ('a \<Rightarrow> error + 'b) \<Rightarrow> error + 'b" where
  "unwrap m e k = (case m of None \<Rightarrow> Inl e | Some v \<Rightarrow> k v)"

section \<open>escrow-manager: data\<close>

definition err_owner_only :: error where "err_owner_only = Err 100"
definition err_not_found :: error where "err_not_found = Err 101"
definition err_unauthorized :: error where "err_unauthorized = Err 102"
definition err_insufficient_funds :: error where "err_insufficient_funds = Err 103"
definition err_invalid_status :: error where "err_invalid_status = Err 104"
definition err_milestone_incomplete :: error where "err_milestone_incomplete = Err 105"
definition err_escrow_expired :: error where "err_escrow_expired = Err 106"
definition err_escrow_active :: error where "err_escrow_active = Err 107"
definition err_invalid_amount :: error where "err_invalid_amount = Err 108"

definition STATUS_ACTIVE :: nat where "STATUS_ACTIVE = 1"
definition STATUS_RELEASED :: nat where "STATUS_RELEASED = 2"
definition STATUS_REFUNDED :: nat where "STATUS_REFUNDED = 3"
definition STATUS_PARTIALLY_RELEASED :: nat where "STATUS_PARTIALLY_RELEASED = 4"
definition STATUS_EXPIRED :: nat where "STATUS_EXPIRED = 5"

definition MILESTONE_PENDING :: nat where "MILESTONE_PENDING = 1"
definition MILESTONE_COMPLETED :: nat where "MILESTONE_COMPLETED = 2"
definition MILESTONE_FAILED :: nat where "MILESTONE_FAILED = 3"

record escrow =
  campaign_id :: nat
  depositor :: principal
  beneficiary :: principal
  amount :: nat
  released_amount :: nat
  status :: nat
  created_at :: nat
  expiry :: nat
  requires_milestones :: bool

record milestone =
  m_description :: string
  m_amount :: nat
  m_status :: nat
  condition_hash :: "string option"
  deadline :: nat
  completed_at :: nat

record milestone_counter =
  total :: nat
  completed :: nat

record release =
  r_amount :: nat
  recipient :: principal
  reason :: string
  released_at :: nat

record pending =
  total_locked :: nat
  total_escrowed_out :: nat

record history =
  total_deposited :: nat
  total_received :: nat
  total_refunded :: nat
  escrows_completed :: nat

text \<open>
  The contract's data variables and maps. \<open>contract_owner\<close> is the constant
  \<^verbatim>\<open>contract-owner\<close>, the deployer. The map \<^verbatim>\<open>escrow-releases\<close> is an association list
  (\<^verbatim>\<open>map-set\<close> is \<open>AList.update\<close>, \<^verbatim>\<open>map-get?\<close> is \<open>map_of\<close>) because the
  properties below add up all of its records; the other maps are only read by key.
\<close>

record escrow_state =
  contract_owner :: principal
  escrow_nonce :: nat
  milestone_nonce :: nat
  min_escrow_amount :: nat
  max_escrow_duration :: nat
  emergency_withdrawal_fee :: nat
  total_escrowed :: nat
  escrow_accounts :: "nat \<rightharpoonup> escrow"
  escrow_milestones :: "nat \<times> nat \<rightharpoonup> milestone"
  milestone_count :: "nat \<rightharpoonup> milestone_counter"
  escrow_releases :: "((nat \<times> nat) \<times> release) list"
  pending_escrows :: "principal \<rightharpoonup> pending"
  escrow_history :: "principal \<rightharpoonup> history"

definition escrow_init :: "principal \<Rightarrow> escrow_state" where
  "escrow_init owner =
     \<lparr>contract_owner = owner, escrow_nonce = 0, milestone_nonce = 0,
      min_escrow_amount = 100000, max_escrow_duration = 52560,
      emergency_withdrawal_fee = 10, total_escrowed = 0,
      escrow_accounts = Map.empty, escrow_milestones = Map.empty,
      milestone_count = Map.empty, escrow_releases = [],
      pending_escrows = Map.empty, escrow_history = Map.empty\<rparr>"

section \<open>escrow-manager: functions\<close>

definition calculate_emergency_fee :: "escrow_state \<Rightarrow> nat \<Rightarrow> error + nat" where
  "calculate_emergency_fee s amt =
     bnd (umul amt (emergency_withdrawal_fee s)) (\<lambda>p. udiv p 100)"

definition update_user_pending ::
  "principal \<Rightarrow> nat \<Rightarrow> bool \<Rightarrow> escrow_state \<Rightarrow> error + escrow_state" where
  "update_user_pending user amt is_deposit s =
     (let pend = (case pending_escrows s user of
                    None \<Rightarrow> \<lparr>total_locked = 0, total_escrowed_out = 0\<rparr>
                  | Some p \<Rightarrow> p)
      in if is_deposit
         then bnd (uadd (total_locked pend) amt) (\<lambda>l.
                Inr (s\<lparr>pending_escrows := (pending_escrows s)(user \<mapsto>
                       \<lparr>total_locked = l, total_escrowed_out = total_escrowed_out pend\<rparr>)\<rparr>))
         else bnd (uadd (total_escrowed_out pend) amt) (\<lambda>out.
                Inr (s\<lparr>pending_escrows := (pending_escrows s)(user \<mapsto>
                       \<lparr>total_locked = total_locked pend, total_escrowed_out = out\<rparr>)\<rparr>)))"

definition get_milestone_count :: "escrow_state \<Rightarrow> nat \<Rightarrow> milestone_counter" where
  "get_milestone_count s escrow_id =
     (case milestone_count s escrow_id of
        None \<Rightarrow> \<lparr>total = 0, completed = 0\<rparr> | Some c \<Rightarrow> c)"

definition is_escrow_expired :: "escrow_state \<Rightarrow> nat \<Rightarrow> nat \<Rightarrow> bool" where
  "is_escrow_expired s now escrow_id =
     (case escrow_accounts s escrow_id of
        Some e \<Rightarrow> now \<ge> expiry e | None \<Rightarrow> False)"

definition create_escrow ::
  "principal \<Rightarrow> nat \<Rightarrow> nat \<Rightarrow> principal \<Rightarrow> nat \<Rightarrow> nat \<Rightarrow> bool \<Rightarrow> escrow_state
    \<Rightarrow> (nat, escrow_state) response" where
  "create_escrow sender now campaign benef amt duration req s =
     bnd (uadd (escrow_nonce s) 1) (\<lambda>escrow_id.
     bnd (uadd now duration) (\<lambda>expiry_time.
     asserts (amt \<ge> min_escrow_amount s) err_invalid_amount (
     asserts (duration \<le> max_escrow_duration s) err_invalid_status (
     asserts (sender \<noteq> benef) err_unauthorized (
     let s1 = s\<lparr>escrow_accounts := (escrow_accounts s)(escrow_id \<mapsto>
                  \<lparr>campaign_id = campaign, depositor = sender, beneficiary = benef,
                   amount = amt, released_amount = 0, status = STATUS_ACTIVE,
                   created_at = now, expiry = expiry_time,
                   requires_milestones = req\<rparr>)\<rparr>;
         s2 = (if req
               then s1\<lparr>milestone_count := (milestone_count s1)(escrow_id \<mapsto>
                         \<lparr>total = 0, completed = 0\<rparr>)\<rparr>
               else s1)
     in bnd (update_user_pending sender amt True s2) (\<lambda>s3.
        bnd (uadd (total_escrowed s3) amt) (\<lambda>t.
        Inr (escrow_id, s3\<lparr>total_escrowed := t, escrow_nonce := escrow_id\<rparr>))))))))"

definition add_milestone ::
  "principal \<Rightarrow> nat \<Rightarrow> nat \<Rightarrow> string \<Rightarrow> nat \<Rightarrow> nat \<Rightarrow> string option \<Rightarrow> escrow_state
    \<Rightarrow> (nat, escrow_state) response" where
  "add_milestone sender now escrow_id descr amt dl chash s =
     unwrap (escrow_accounts s escrow_id) err_not_found (\<lambda>e.
     let count_data = get_milestone_count s escrow_id in
     bnd (uadd (total count_data) 1) (\<lambda>milestone_id.
     asserts (sender = depositor e) err_unauthorized (
     asserts (requires_milestones e) err_invalid_status (
     asserts (status e = STATUS_ACTIVE) err_invalid_status (
     Inr (milestone_id,
          s\<lparr>escrow_milestones := (escrow_milestones s)((escrow_id, milestone_id) \<mapsto>
                \<lparr>m_description = descr, m_amount = amt, m_status = MILESTONE_PENDING,
                 condition_hash = chash, deadline = dl, completed_at = 0\<rparr>),
            milestone_count := (milestone_count s)(escrow_id \<mapsto>
                \<lparr>total = milestone_id, completed = completed count_data\<rparr>)\<rparr>))))))"

definition complete_milestone ::
  "principal \<Rightarrow> nat \<Rightarrow> nat \<Rightarrow> nat \<Rightarrow> escrow_state \<Rightarrow> (bool, escrow_state) response" where
  "complete_milestone sender now escrow_id milestone_id s =
     unwrap (escrow_accounts s escrow_id) err_not_found (\<lambda>e.
     unwrap (escrow_milestones s (escrow_id, milestone_id)) err_not_found (\<lambda>m.
     let count_data = get_milestone_count s escrow_id in
     asserts (sender = beneficiary e) err_unauthorized (
     asserts (m_status m = MILESTONE_PENDING) err_invalid_status (
     bnd (uadd (completed count_data) 1) (\<lambda>c.
     Inr (True,
          s\<lparr>escrow_milestones := (escrow_milestones s)((escrow_id, milestone_id) \<mapsto>
                m\<lparr>m_status := MILESTONE_COMPLETED, completed_at := now\<rparr>),
            milestone_count := (milestone_count s)(escrow_id \<mapsto>
                \<lparr>total = total count_data, completed = c\<rparr>)\<rparr>))))))"

definition release_funds ::
  "principal \<Rightarrow> nat \<Rightarrow> nat \<Rightarrow> nat \<Rightarrow> string \<Rightarrow> escrow_state \<Rightarrow> (bool, escrow_state) response" where
  "release_funds sender now escrow_id amt why s =
     unwrap (escrow_accounts s escrow_id) err_not_found (\<lambda>e.
     bnd (usub (amount e) (released_amount e)) (\<lambda>available.
     bnd (uadd (milestone_nonce s) 1) (\<lambda>release_id.
     asserts (sender = depositor e) err_unauthorized (
     asserts (status e = STATUS_ACTIVE) err_invalid_status (
     asserts (amt \<le> available) err_insufficient_funds (
     bnd (uadd (released_amount e) amt) (\<lambda>new_released.
     Inr (True,
          s\<lparr>escrow_releases := AList.update (escrow_id, release_id)
                \<lparr>r_amount = amt, recipient = beneficiary e, reason = why,
                 released_at = now\<rparr> (escrow_releases s),
            escrow_accounts := (escrow_accounts s)(escrow_id \<mapsto>
                e\<lparr>released_amount := new_released,
                  status := (if new_released = amount e then STATUS_RELEASED
                             else STATUS_PARTIALLY_RELEASED)\<rparr>),
            milestone_nonce := release_id\<rparr>))))))))"

definition release_milestone_funds ::
  "principal \<Rightarrow> nat \<Rightarrow> nat \<Rightarrow> nat \<Rightarrow> escrow_state \<Rightarrow> (bool, escrow_state) response" where
  "release_milestone_funds sender now escrow_id milestone_id s =
     unwrap (escrow_accounts s escrow_id) err_not_found (\<lambda>e.
     unwrap (escrow_milestones s (escrow_id, milestone_id)) err_not_found (\<lambda>m.
     bnd (usub (amount e) (released_amount e)) (\<lambda>available.
     bnd (uadd (milestone_nonce s) 1) (\<lambda>release_id.
     asserts (sender = depositor e) err_unauthorized (
     asserts (m_status m = MILESTONE_COMPLETED) err_milestone_incomplete (
     asserts (m_amount m \<le> available) err_insufficient_funds (
     bnd (uadd (released_amount e) (m_amount m)) (\<lambda>new_released.
     Inr (True,
          s\<lparr>escrow_releases := AList.update (escrow_id, release_id)
                \<lparr>r_amount = m_amount m, recipient = beneficiary e,
                 reason = m_description m, released_at = now\<rparr> (escrow_releases s),
            escrow_accounts := (escrow_accounts s)(escrow_id \<mapsto>
                e\<lparr>released_amount := new_released,
                  status := (if new_released = amount e then STATUS_RELEASED
                             else STATUS_PARTIALLY_RELEASED)\<rparr>),
            milestone_nonce := release_id\<rparr>)))))))))"

definition refund_escrow ::
  "principal \<Rightarrow> nat \<Rightarrow> nat \<Rightarrow> escrow_state \<Rightarrow> (nat, escrow_state) response" where
  "refund_escrow sender now escrow_id s =
     unwrap (escrow_accounts s escrow_id) err_not_found (\<lambda>e.
     bnd (usub (amount e) (released_amount e)) (\<lambda>refund_amount.
     asserts (sender = depositor e) err_unauthorized (
     asserts (now \<ge> expiry e) err_escrow_active (
     asserts (status e = STATUS_ACTIVE \<or> status e = STATUS_PARTIALLY_RELEASED)
       err_invalid_status (
     let hist = (case escrow_history s (depositor e) of
                   None \<Rightarrow> \<lparr>total_deposited = 0, total_received = 0,
                            total_refunded = 0, escrows_completed = 0\<rparr>
                 | Some h \<Rightarrow> h)
     in bnd (uadd (total_refunded hist) refund_amount) (\<lambda>r.
        Inr (refund_amount,
             s\<lparr>escrow_accounts := (escrow_accounts s)(escrow_id \<mapsto>
                   e\<lparr>status := STATUS_REFUNDED\<rparr>),
               escrow_history := (escrow_history s)(depositor e \<mapsto>
                   hist\<lparr>total_refunded := r\<rparr>)\<rparr>)))))))"

definition emergency_withdrawal ::
  "principal \<Rightarrow> nat \<Rightarrow> nat \<Rightarrow> escrow_state \<Rightarrow> (nat, escrow_state) response" where
  "emergency_withdrawal sender now escrow_id s =
     unwrap (escrow_accounts s escrow_id) err_not_found (\<lambda>e.
     bnd (usub (amount e) (released_amount e)) (\<lambda>available.
     bnd (calculate_emergency_fee s available) (\<lambda>fee.
     bnd (usub available fee) (\<lambda>withdrawal_amount.
     asserts (sender = depositor e) err_unauthorized (
     asserts (status e = STATUS_ACTIVE) err_invalid_status (
     Inr (withdrawal_amount,
          s\<lparr>escrow_accounts := (escrow_accounts s)(escrow_id \<mapsto>
                e\<lparr>status := STATUS_REFUNDED, released_amount := amount e\<rparr>)\<rparr>)))))))"

definition extend_escrow_period ::
  "principal \<Rightarrow> nat \<Rightarrow> nat \<Rightarrow> nat \<Rightarrow> escrow_state \<Rightarrow> (bool, escrow_state) response" where
  "extend_escrow_period sender now escrow_id additional_time s =
     unwrap (escrow_accounts s escrow_id) err_not_found (\<lambda>e.
     asserts (sender = depositor e) err_unauthorized (
     asserts (status e = STATUS_ACTIVE) err_invalid_status (
     bnd (uadd (expiry e) additional_time) (\<lambda>x.
     Inr (True,
          s\<lparr>escrow_accounts := (escrow_accounts s)(escrow_id \<mapsto> e\<lparr>expiry := x\<rparr>)\<rparr>)))))"

definition set_min_escrow_amount ::
  "principal \<Rightarrow> nat \<Rightarrow> escrow_state \<Rightarrow> (bool, escrow_state) response" where
  "set_min_escrow_amount sender new_min s =
     asserts (sender = contract_owner s) err_owner_only (
     Inr (True, s\<lparr>min_escrow_amount := new_min\<rparr>))"

definition set_emergency_fee ::
  "principal \<Rightarrow> nat \<Rightarrow> escrow_state \<Rightarrow> (bool, escrow_state) response" where
  "set_emergency_fee sender new_fee s =
     asserts (sender = contract_owner s) err_owner_only (
     asserts (new_fee \<le> 50) err_invalid_amount (
     Inr (True, s\<lparr>emergency_withdrawal_fee := new_fee\<rparr>)))"

section \<open>escrow-manager: transactions\<close>

text \<open>
  A transaction is a call of one public function by \<open>tx_sender\<close> at block time
  \<open>tx_time\<close>. A call that returns an error or aborts leaves the state as it was.
\<close>

datatype escrow_call =
    CreateEscrow nat principal nat nat bool
  | AddMilestone nat string nat nat "string option"
  | CompleteMilestone nat nat
  | ReleaseFunds nat nat string
  | ReleaseMilestoneFunds nat nat
  | RefundEscrow nat
  | EmergencyWithdrawal nat
  | ExtendEscrowPeriod nat nat
  | SetMinEscrowAmount nat
  | SetEmergencyFee nat

definition commit :: "('a, 's) response \<Rightarrow> 's \<Rightarrow> 's" where
  "commit r s = (case r of Inl e \<Rightarrow> s | Inr (v, s') \<Rightarrow> s')"

fun escrow_step :: "principal \<Rightarrow> nat \<Rightarrow> escrow_call \<Rightarrow> escrow_state \<Rightarrow> escrow_state" where
  "escrow_step sender now (CreateEscrow c b a d r) s =
     commit (create_escrow sender now c b a d r s) s"
| "escrow_step sender now (AddMilestone e d a dl h) s =
     commit (add_milestone sender now e d a dl h s) s"
| "escrow_step sender now (CompleteMilestone e m) s =
     commit (complete_milestone sender now e m s) s"
| "escrow_step sender now (ReleaseFunds e a r) s =
     commit (release_funds sender now e a r s) s"
| "escrow_step sender now (ReleaseMilestoneFunds e m) s =
     commit (release_milestone_funds sender now e m s) s"
| "escrow_step sender now (RefundEscrow e) s =
     commit (refund_escrow sender now e s) s"
| "escrow_step sender now (EmergencyWithdrawal e) s =
     commit (emergency_withdrawal sender now e s) s"
| "escrow_step sender now (ExtendEscrowPeriod e t) s =
     commit (extend_escrow_period sender now e t s) s"
| "escrow_step sender now (SetMinEscrowAmount m) s =
     commit (set_min_escrow_amount sender m s) s"
| "escrow_step sender now (SetEmergencyFee f) s =
     commit (set_emergency_fee sender f s) s"

type_synonym escrow_tx = "principal \<times> nat \<times> escrow_call"

fun escrow_run :: "escrow_state \<Rightarrow> escrow_tx list \<Rightarrow> escrow_state" where
  "escrow_run s [] = s"
| "escrow_run s ((sender, now, c) # txs) = escrow_run (escrow_step sender now c s) txs"

text \<open>
  Whether a call returned \<^verbatim>\<open>(ok v)\<close>, and whether, in a run of transactions from state
  \<open>s\<close>, some call of \<^verbatim>\<open>emergency-withdrawal\<close> for escrow \<open>k\<close> did.
\<close>

definition is_ok :: "('a, 's) response \<Rightarrow> bool" where
  "is_ok r = (case r of Inl e \<Rightarrow> False | Inr x \<Rightarrow> True)"

fun emergency_withdrawn :: "escrow_state \<Rightarrow> escrow_tx list \<Rightarrow> nat \<Rightarrow> bool" where
  "emergency_withdrawn s [] k = False"
| "emergency_withdrawn s ((sender, now, c) # txs) k =
     ((c = EmergencyWithdrawal k \<and> is_ok (emergency_withdrawal sender now k s))
      \<or> emergency_withdrawn (escrow_step sender now c s) txs k)"

text \<open>The sum of the amounts of all Release records stored for one escrow.\<close>

definition release_total :: "escrow_state \<Rightarrow> nat \<Rightarrow> nat" where
  "release_total s escrow_id =
     sum_list (map (\<lambda>kv. r_amount (snd kv))
                   (filter (\<lambda>kv. fst (fst kv) = escrow_id) (escrow_releases s)))"

section \<open>dispute-resolution: data\<close>

text \<open>
  Names that the two contracts share carry the prefix \<open>dr_\<close> in this contract, and
  record fields that would clash a short prefix of their record. The one-field tuple
  \<^verbatim>\<open>{ total-evidence: uint }\<close> of the map \<^verbatim>\<open>evidence-count\<close> is its field.
\<close>

definition dr_err_owner_only :: error where "dr_err_owner_only = Err 100"
definition dr_err_not_found :: error where "dr_err_not_found = Err 101"
definition dr_err_unauthorized :: error where "dr_err_unauthorized = Err 102"
definition dr_err_invalid_status :: error where "dr_err_invalid_status = Err 103"
definition err_already_resolved :: error where "err_already_resolved = Err 104"
definition err_insufficient_amount :: error where "err_insufficient_amount = Err 105"
definition err_invalid_party :: error where "err_invalid_party = Err 106"
definition err_evidence_limit :: error where "err_evidence_limit = Err 107"
definition err_appeal_expired :: error where "err_appeal_expired = Err 108"

definition STATUS_OPEN :: nat where "STATUS_OPEN = 1"
definition STATUS_UNDER_REVIEW :: nat where "STATUS_UNDER_REVIEW = 2"
definition STATUS_RESOLVED :: nat where "STATUS_RESOLVED = 3"
definition STATUS_APPEALED :: nat where "STATUS_APPEALED = 4"
definition STATUS_CLOSED :: nat where "STATUS_CLOSED = 5"

definition TYPE_PAYMENT :: nat where "TYPE_PAYMENT = 1"
definition TYPE_FRAUD :: nat where "TYPE_FRAUD = 2"
definition TYPE_QUALITY :: nat where "TYPE_QUALITY = 3"
definition TYPE_CONTRACT_BREACH :: nat where "TYPE_CONTRACT_BREACH = 4"

definition OUTCOME_ADVERTISER_WINS :: nat where "OUTCOME_ADVERTISER_WINS = 1"
definition OUTCOME_PUBLISHER_WINS :: nat where "OUTCOME_PUBLISHER_WINS = 2"
definition OUTCOME_SPLIT :: nat where "OUTCOME_SPLIT = 3"
definition OUTCOME_DISMISSED :: nat where "OUTCOME_DISMISSED = 4"

record dispute =
  d_campaign_id :: nat
  advertiser :: principal
  publisher :: principal
  dispute_type :: nat
  d_amount :: nat
  d_status :: nat
  d_description :: string
  d_created_at :: nat
  updated_at :: nat
  resolution_deadline :: nat

record evidence =
  submitter :: principal
  evidence_type :: string
  evidence_hash :: string
  e_description :: string
  submitted_at :: nat

record assignment =
  arbitrator :: principal
  assigned_at :: nat
  decision_deadline :: nat

record vote =
  v_outcome :: nat
  v_reasoning :: string
  voted_at :: nat

record outcome =
  o_outcome :: nat
  winner :: principal
  amount_transferred :: nat
  o_reasoning :: string
  resolved_at :: nat
  o_can_appeal :: bool

record party_history =
  total_disputes :: nat
  disputes_won :: nat
  disputes_lost :: nat
  reputation_score :: nat

record arb_stats =
  total_cases :: nat
  cases_resolved :: nat
  reputation :: nat
  active :: bool

record dispute_state =
  dr_contract_owner :: principal
  dispute_nonce :: nat
  min_dispute_amount :: nat
  max_evidence_per_dispute :: nat
  arbitration_fee_percentage :: nat
  appeal_window :: nat
  auto_resolve_threshold :: nat
  total_disputes_resolved :: nat
  disputes :: "nat \<rightharpoonup> dispute"
  evidence_submissions :: "nat \<times> nat \<rightharpoonup> evidence"
  arbitrator_assignments :: "nat \<rightharpoonup> assignment"
  arbitrator_votes :: "nat \<times> principal \<rightharpoonup> vote"
  dispute_outcomes :: "nat \<rightharpoonup> outcome"
  evidence_count :: "nat \<rightharpoonup> nat"
  dispute_history :: "principal \<rightharpoonup> party_history"
  arbitrator_stats :: "principal \<rightharpoonup> arb_stats"

definition dispute_init :: "principal \<Rightarrow> dispute_state" where
  "dispute_init owner =
     \<lparr>dr_contract_owner = owner, dispute_nonce = 0, min_dispute_amount = 1000000,
      max_evidence_per_dispute = 10, arbitration_fee_percentage = 5,
      appeal_window = 1440, auto_resolve_threshold = 100000,
      total_disputes_resolved = 0,
      disputes = Map.empty, evidence_submissions = Map.empty,
      arbitrator_assignments = Map.empty, arbitrator_votes = Map.empty,
      dispute_outcomes = Map.empty, evidence_count = Map.empty,
      dispute_history = Map.empty, arbitrator_stats = Map.empty\<rparr>"

section \<open>dispute-resolution: functions\<close>

definition is_valid_dispute_type :: "nat \<Rightarrow> bool" where
  "is_valid_dispute_type t \<longleftrightarrow>
     t = TYPE_PAYMENT \<or> t = TYPE_FRAUD \<or> t = TYPE_QUALITY \<or> t = TYPE_CONTRACT_BREACH"

definition is_valid_outcome :: "nat \<Rightarrow> bool" where
  "is_valid_outcome oc \<longleftrightarrow>
     oc = OUTCOME_ADVERTISER_WINS \<or> oc = OUTCOME_PUBLISHER_WINS \<or> oc = OUTCOME_SPLIT
     \<or> oc = OUTCOME_DISMISSED"

definition update_party_reputation ::
  "principal \<Rightarrow> bool \<Rightarrow> dispute_state \<Rightarrow> error + dispute_state" where
  "update_party_reputation party won s =
     (let hist = (case dispute_history s party of
                    None \<Rightarrow> \<lparr>total_disputes = 0, disputes_won = 0, disputes_lost = 0,
                             reputation_score = 100\<rparr>
                  | Some h \<Rightarrow> h)
      in bnd (uadd (total_disputes hist) 1) (\<lambda>td.
         bnd (if won then uadd (disputes_won hist) 1 else Inr (disputes_won hist)) (\<lambda>dw.
         bnd (if won then Inr (disputes_lost hist) else uadd (disputes_lost hist) 1) (\<lambda>dl.
         bnd (if won
              then bnd (uadd (reputation_score hist) 5) (\<lambda>new_score.
                     Inr (if new_score > 100 then 100 else new_score))
              else (if reputation_score hist > 5 then usub (reputation_score hist) 5
                    else Inr 0)) (\<lambda>score.
         Inr (s\<lparr>dispute_history := (dispute_history s)(party \<mapsto>
                  \<lparr>total_disputes = td, disputes_won = dw, disputes_lost = dl,
                   reputation_score = score\<rparr>)\<rparr>))))))"

definition get_evidence_count :: "dispute_state \<Rightarrow> nat \<Rightarrow> nat" where
  "get_evidence_count s dispute_id =
     (case evidence_count s dispute_id of None \<Rightarrow> 0 | Some n \<Rightarrow> n)"

definition open_dispute ::
  "principal \<Rightarrow> nat \<Rightarrow> nat \<Rightarrow> principal \<Rightarrow> nat \<Rightarrow> nat \<Rightarrow> string \<Rightarrow> bool \<Rightarrow> dispute_state
    \<Rightarrow> (nat, dispute_state) response" where
  "open_dispute sender now campaign other_party dtype amt descr is_advertiser s =
     bnd (uadd (dispute_nonce s) 1) (\<lambda>dispute_id.
     let adv = (if is_advertiser then sender else other_party);
         pub = (if is_advertiser then other_party else sender)
     in bnd (uadd now 1440) (\<lambda>deadline_time.
     asserts (is_valid_dispute_type dtype) dr_err_invalid_status (
     asserts (amt \<ge> min_dispute_amount s) err_insufficient_amount (
     asserts (sender \<noteq> other_party) err_invalid_party (
     Inr (dispute_id,
          s\<lparr>disputes := (disputes s)(dispute_id \<mapsto>
                \<lparr>d_campaign_id = campaign, advertiser = adv, publisher = pub,
                 dispute_type = dtype, d_amount = amt, d_status = STATUS_OPEN,
                 d_description = descr, d_created_at = now, updated_at = now,
                 resolution_deadline = deadline_time\<rparr>),
            evidence_count := (evidence_count s)(dispute_id \<mapsto> 0),
            dispute_nonce := dispute_id\<rparr>))))))"

definition submit_evidence ::
  "principal \<Rightarrow> nat \<Rightarrow> nat \<Rightarrow> string \<Rightarrow> string \<Rightarrow> string \<Rightarrow> dispute_state
    \<Rightarrow> (nat, dispute_state) response" where
  "submit_evidence sender now dispute_id etype ehash descr s =
     unwrap (disputes s dispute_id) dr_err_not_found (\<lambda>d.
     let count_data = get_evidence_count s dispute_id in
     bnd (uadd count_data 1) (\<lambda>evidence_id.
     asserts (sender = advertiser d \<or> sender = publisher d) dr_err_unauthorized (
     asserts (count_data < max_evidence_per_dispute s) err_evidence_limit (
     asserts (d_status d = STATUS_OPEN \<or> d_status d = STATUS_UNDER_REVIEW)
       dr_err_invalid_status (
     Inr (evidence_id,
          s\<lparr>evidence_submissions := (evidence_submissions s)((dispute_id, evidence_id) \<mapsto>
                \<lparr>submitter = sender, evidence_type = etype, evidence_hash = ehash,
                 e_description = descr, submitted_at = now\<rparr>),
            evidence_count := (evidence_count s)(dispute_id \<mapsto> evidence_id)\<rparr>))))))"

definition assign_arbitrator ::
  "principal \<Rightarrow> nat \<Rightarrow> nat \<Rightarrow> principal \<Rightarrow> dispute_state \<Rightarrow> (bool, dispute_state) response" where
  "assign_arbitrator sender now dispute_id arb s =
     unwrap (disputes s dispute_id) dr_err_not_found (\<lambda>d.
     bnd (uadd now 720) (\<lambda>deadline_time.
     asserts (sender = dr_contract_owner s) dr_err_owner_only (
     asserts (d_status d = STATUS_OPEN) dr_err_invalid_status (
     let st = (case arbitrator_stats s arb of
                 None \<Rightarrow> \<lparr>total_cases = 0, cases_resolved = 0, reputation = 100,
                          active = True\<rparr>
               | Some x \<Rightarrow> x)
     in bnd (uadd (total_cases st) 1) (\<lambda>tc.
        Inr (True,
             s\<lparr>arbitrator_assignments := (arbitrator_assignments s)(dispute_id \<mapsto>
                   \<lparr>arbitrator = arb, assigned_at = now,
                    decision_deadline = deadline_time\<rparr>),
               disputes := (disputes s)(dispute_id \<mapsto>
                   d\<lparr>d_status := STATUS_UNDER_REVIEW, updated_at := now\<rparr>),
               arbitrator_stats := (arbitrator_stats s)(arb \<mapsto>
                   st\<lparr>total_cases := tc\<rparr>)\<rparr>))))))"

definition vote_on_dispute ::
  "principal \<Rightarrow> nat \<Rightarrow> nat \<Rightarrow> nat \<Rightarrow> string \<Rightarrow> dispute_state
    \<Rightarrow> (bool, dispute_state) response" where
  "vote_on_dispute sender now dispute_id oc reasoning s =
     unwrap (disputes s dispute_id) dr_err_not_found (\<lambda>d.
     unwrap (arbitrator_assignments s dispute_id) dr_err_not_found (\<lambda>asg.
     asserts (sender = arbitrator asg) dr_err_unauthorized (
     asserts (d_status d = STATUS_UNDER_REVIEW) dr_err_invalid_status (
     asserts (is_valid_outcome oc) dr_err_invalid_status (
     Inr (True,
          s\<lparr>arbitrator_votes := (arbitrator_votes s)((dispute_id, sender) \<mapsto>
                \<lparr>v_outcome = oc, v_reasoning = reasoning, voted_at = now\<rparr>)\<rparr>))))))"

definition execute_ruling ::
  "principal \<Rightarrow> nat \<Rightarrow> nat \<Rightarrow> dispute_state \<Rightarrow> (bool, dispute_state) response" where
  "execute_ruling sender now dispute_id s =
     unwrap (disputes s dispute_id) dr_err_not_found (\<lambda>d.
     unwrap (arbitrator_assignments s dispute_id) dr_err_not_found (\<lambda>asg0.
     unwrap (arbitrator_votes s (dispute_id, arbitrator asg0)) dr_err_not_found (\<lambda>v.
     let oc = v_outcome v;
         win = (if oc = OUTCOME_ADVERTISER_WINS then advertiser d
                else if oc = OUTCOME_PUBLISHER_WINS then publisher d
                else dr_contract_owner s)
     in bnd (if oc = OUTCOME_SPLIT then udiv (d_amount d) 2 else Inr (d_amount d))
          (\<lambda>transfer_amount.
     asserts (sender = dr_contract_owner s) dr_err_owner_only (
     asserts (d_status d = STATUS_UNDER_REVIEW) dr_err_invalid_status (
     let s1 = s\<lparr>disputes := (disputes s)(dispute_id \<mapsto>
                  d\<lparr>d_status := STATUS_RESOLVED, updated_at := now\<rparr>)\<rparr>
     in bnd (umul (auto_resolve_threshold s1) 5) (\<lambda>limit.
     let s2 = s1\<lparr>dispute_outcomes := (dispute_outcomes s1)(dispute_id \<mapsto>
                   \<lparr>o_outcome = oc, winner = win, amount_transferred = transfer_amount,
                    o_reasoning = v_reasoning v, resolved_at = now,
                    o_can_appeal = (d_amount d \<ge> limit)\<rparr>)\<rparr>
     in bnd (update_party_reputation (advertiser d) (oc = OUTCOME_ADVERTISER_WINS) s2) (\<lambda>s3.
        bnd (update_party_reputation (publisher d) (oc = OUTCOME_PUBLISHER_WINS) s3) (\<lambda>s4.
        unwrap (arbitrator_assignments s4 dispute_id) dr_err_not_found (\<lambda>asg.
        unwrap (arbitrator_stats s4 (arbitrator asg)) dr_err_not_found (\<lambda>st.
        bnd (uadd (cases_resolved st) 1) (\<lambda>cr.
        let s5 = s4\<lparr>arbitrator_stats := (arbitrator_stats s4)(arbitrator asg \<mapsto>
                      st\<lparr>cases_resolved := cr\<rparr>)\<rparr>
        in bnd (uadd (total_disputes_resolved s5) 1) (\<lambda>n.
           Inr (True, s5\<lparr>total_disputes_resolved := n\<rparr>))))))))))))))"

definition appeal_decision ::
  "principal \<Rightarrow> nat \<Rightarrow> nat \<Rightarrow> string \<Rightarrow> dispute_state \<Rightarrow> (bool, dispute_state) response" where
  "appeal_decision sender now dispute_id why s =
     unwrap (disputes s dispute_id) dr_err_not_found (\<lambda>d.
     unwrap (dispute_outcomes s dispute_id) dr_err_not_found (\<lambda>oc.
     asserts (sender = advertiser d \<or> sender = publisher d) dr_err_unauthorized (
     asserts (o_can_appeal oc) dr_err_invalid_status (
     bnd (usub now (resolved_at oc)) (\<lambda>elapsed.
     asserts (elapsed < appeal_window s) err_appeal_expired (
     Inr (True,
          s\<lparr>disputes := (disputes s)(dispute_id \<mapsto>
                d\<lparr>d_status := STATUS_APPEALED, updated_at := now\<rparr>)\<rparr>)))))))"

definition auto_resolve_dispute ::
  "principal \<Rightarrow> nat \<Rightarrow> nat \<Rightarrow> dispute_state \<Rightarrow> (bool, dispute_state) response" where
  "auto_resolve_dispute sender now dispute_id s =
     unwrap (disputes s dispute_id) dr_err_not_found (\<lambda>d.
     asserts (d_amount d \<le> auto_resolve_threshold s) err_insufficient_amount (
     asserts (d_status d = STATUS_OPEN) dr_err_invalid_status (
     bnd (udiv (d_amount d) 2) (\<lambda>half.
     bnd (uadd (total_disputes_resolved s) 1) (\<lambda>n.
     Inr (True,
          s\<lparr>disputes := (disputes s)(dispute_id \<mapsto>
                d\<lparr>d_status := STATUS_RESOLVED, updated_at := now\<rparr>),
            dispute_outcomes := (dispute_outcomes s)(dispute_id \<mapsto>
                \<lparr>o_outcome = OUTCOME_SPLIT, winner = dr_contract_owner s,
                 amount_transferred = half,
                 o_reasoning = ''Auto-resolved: small claim split 50/50'',
                 resolved_at = now, o_can_appeal = False\<rparr>),
            total_disputes_resolved := n\<rparr>))))))"

definition close_dispute ::
  "principal \<Rightarrow> nat \<Rightarrow> nat \<Rightarrow> dispute_state \<Rightarrow> (bool, dispute_state) response" where
  "close_dispute sender now dispute_id s =
     unwrap (disputes s dispute_id) dr_err_not_found (\<lambda>d.
     asserts (d_status d = STATUS_RESOLVED) dr_err_invalid_status (
     Inr (True,
          s\<lparr>disputes := (disputes s)(dispute_id \<mapsto>
                d\<lparr>d_status := STATUS_CLOSED, updated_at := now\<rparr>)\<rparr>)))"

definition register_arbitrator ::
  "principal \<Rightarrow> principal \<Rightarrow> dispute_state \<Rightarrow> (bool, dispute_state) response" where
  "register_arbitrator sender arb s =
     asserts (sender = dr_contract_owner s) dr_err_owner_only (
     Inr (True,
          s\<lparr>arbitrator_stats := (arbitrator_stats s)(arb \<mapsto>
                \<lparr>total_cases = 0, cases_resolved = 0, reputation = 100,
                 active = True\<rparr>)\<rparr>))"

definition deactivate_arbitrator ::
  "principal \<Rightarrow> principal \<Rightarrow> dispute_state \<Rightarrow> (bool, dispute_state) response" where
  "deactivate_arbitrator sender arb s =
     unwrap (arbitrator_stats s arb) dr_err_not_found (\<lambda>st.
     asserts (sender = dr_contract_owner s) dr_err_owner_only (
     Inr (True,
          s\<lparr>arbitrator_stats := (arbitrator_stats s)(arb \<mapsto> st\<lparr>active := False\<rparr>)\<rparr>)))"

definition set_auto_resolve_threshold ::
  "principal \<Rightarrow> nat \<Rightarrow> dispute_state \<Rightarrow> (bool, dispute_state) response" where
  "set_auto_resolve_threshold sender new_threshold s =
     asserts (sender = dr_contract_owner s) dr_err_owner_only (
     Inr (True, s\<lparr>auto_resolve_threshold := new_threshold\<rparr>))"

definition set_appeal_window ::
  "principal \<Rightarrow> nat \<Rightarrow> dispute_state \<Rightarrow> (bool, dispute_state) response" where
  "set_appeal_window sender new_window s =
     asserts (sender = dr_contract_owner s) dr_err_owner_only (
     Inr (True, s\<lparr>appeal_window := new_window\<rparr>))"

section \<open>dispute-resolution: transactions\<close>

datatype dispute_call =
    OpenDispute nat principal nat nat string bool
  | SubmitEvidence nat string string string
  | AssignArbitrator nat principal
  | VoteOnDispute nat nat string
  | ExecuteRuling nat
  | AppealDecision nat string
  | AutoResolveDispute nat
  | CloseDispute nat
  | RegisterArbitrator principal
  | DeactivateArbitrator principal
  | SetAutoResolveThreshold nat
  | SetAppealWindow nat

fun dispute_step :: "principal \<Rightarrow> nat \<Rightarrow> dispute_call \<Rightarrow> dispute_state \<Rightarrow> dispute_state" where
  "dispute_step sender now (OpenDispute c p t a d f) s =
     commit (open_dispute sender now c p t a d f s) s"
| "dispute_step sender now (SubmitEvidence d t h x) s =
     commit (submit_evidence sender now d t h x s) s"
| "dispute_step sender now (AssignArbitrator d a) s =
     commit (assign_arbitrator sender now d a s) s"
| "dispute_step sender now (VoteOnDispute d oc r) s =
     commit (vote_on_dispute sender now d oc r s) s"
| "dispute_step sender now (ExecuteRuling d) s =
     commit (execute_ruling sender now d s) s"
| "dispute_step sender now (AppealDecision d r) s =
     commit (appeal_decision sender now d r s) s"
| "dispute_step sender now (AutoResolveDispute d) s =
     commit (auto_resolve_dispute sender now d s) s"
| "dispute_step sender now (CloseDispute d) s =
     commit (close_dispute sender now d s) s"
| "dispute_step sender now (RegisterArbitrator a) s =
     commit (register_arbitrator sender a s) s"
| "dispute_step sender now (DeactivateArbitrator a) s =
     commit (deactivate_arbitrator sender a s) s"
| "dispute_step sender now (SetAutoResolveThreshold n) s =
     commit (set_auto_resolve_threshold sender n s) s"
| "dispute_step sender now (SetAppealWindow n) s =
     commit (set_appeal_window sender n s) s"

type_synonym dispute_tx = "principal \<times> nat \<times> dispute_call"

fun dispute_run :: "dispute_state \<Rightarrow> dispute_tx list \<Rightarrow> dispute_state" where
  "dispute_run s [] = s"
| "dispute_run s ((sender, now, c) # txs) = dispute_run (dispute_step sender now c s) txs"

section \<open>escrow-manager: invariants\<close>

text \<open>
  Predicates used to reason about every state the contract can reach. \<open>account_move\<close>
  lists the ways a successful call rewrites one existing escrow record: a release (of
  \<open>x\<close>, by \<^verbatim>\<open>release-funds\<close> or \<^verbatim>\<open>release-milestone-funds\<close>), a refund, an emergency
  withdrawal, an extension of the expiry.
\<close>

definition balance_ok :: "escrow_state \<Rightarrow> bool" where
  "balance_ok s \<longleftrightarrow> (\<forall>k e. escrow_accounts s k = Some e \<longrightarrow> released_amount e \<le> amount e)"

definition status_ok :: "escrow_state \<Rightarrow> bool" where
  "status_ok s \<longleftrightarrow>
     (\<forall>k e. escrow_accounts s k = Some e \<longrightarrow>
        (status e = STATUS_ACTIVE \<longrightarrow> released_amount e = 0)
      \<and> (status e = STATUS_RELEASED \<longrightarrow> released_amount e = amount e)
      \<and> (status e = STATUS_PARTIALLY_RELEASED \<longrightarrow> released_amount e \<noteq> amount e)
      \<and> (status e = STATUS_ACTIVE \<or> status e = STATUS_RELEASED
         \<or> status e = STATUS_REFUNDED \<or> status e = STATUS_PARTIALLY_RELEASED))"

definition ids_ok :: "escrow_state \<Rightarrow> bool" where
  "ids_ok s \<longleftrightarrow>
     (\<forall>k. escrow_accounts s k \<noteq> None \<longrightarrow> k \<le> escrow_nonce s)
   \<and> (\<forall>key \<in> fst ` set (escrow_releases s).
        escrow_accounts s (fst key) \<noteq> None \<and> snd key \<le> milestone_nonce s)"

definition account_move :: "escrow \<Rightarrow> escrow \<Rightarrow> bool" where
  "account_move e e' \<longleftrightarrow>
     (\<exists>x. released_amount e + x \<le> amount e
        \<and> e' = e\<lparr>released_amount := released_amount e + x,
                  status := (if released_amount e + x = amount e then STATUS_RELEASED
                             else STATUS_PARTIALLY_RELEASED)\<rparr>)
   \<or> (released_amount e \<le> amount e
        \<and> (status e = STATUS_ACTIVE \<or> status e = STATUS_PARTIALLY_RELEASED)
        \<and> e' = e\<lparr>status := STATUS_REFUNDED\<rparr>)
   \<or> (released_amount e \<le> amount e \<and> status e = STATUS_ACTIVE
        \<and> e' = e\<lparr>status := STATUS_REFUNDED, released_amount := amount e\<rparr>)
   \<or> (status e = STATUS_ACTIVE \<and> (\<exists>t. e' = e\<lparr>expiry := expiry e + t\<rparr>))"

definition ledger_ok :: "escrow_state \<Rightarrow> nat \<Rightarrow> bool" where
  "ledger_ok s k \<longleftrightarrow>
     release_total s k = (case escrow_accounts s k of None \<Rightarrow> 0 | Some e \<Rightarrow> released_amount e)"

section \<open>escrow-manager: example transactions\<close>

text \<open>
  Depositor D opens an escrow of 1,000,000 for beneficiary B (duration 1000, with
  milestones), adds a milestone of 600,000, and B completes it.
\<close>

definition milestone_txs :: "escrow_tx list" where
  "milestone_txs =
     [(''D'', 0, CreateEscrow 1 ''B'' 1000000 1000 True),
      (''D'', 1, AddMilestone 1 ''phase one'' 600000 500 None),
      (''B'', 2, CompleteMilestone 1 1)]"

text \<open>Then D releases the milestone's funds.\<close>

definition partial_txs :: "escrow_tx list" where
  "partial_txs = milestone_txs @ [(''D'', 3, ReleaseMilestoneFunds 1 1)]"

text \<open>Or D lets the escrow expire and takes the refund, nothing released.\<close>

definition refunded_txs :: "escrow_tx list" where
  "refunded_txs = milestone_txs @ [(''D'', 1000, RefundEscrow 1)]"

text \<open>An escrow without milestones, released in full, and one withdrawn early.\<close>

definition full_release_txs :: "escrow_tx list" where
  "full_release_txs =
     [(''D'', 0, CreateEscrow 1 ''B'' 1000000 1000 False),
      (''D'', 4, ReleaseFunds 1 1000000 ''delivered'')]"

definition withdrawn_txs :: "escrow_tx list" where
  "withdrawn_txs =
     [(''D'', 0, CreateEscrow 1 ''B'' 1000000 1000 False),
      (''D'', 5, EmergencyWithdrawal 1)]"

text \<open>
  After the partial release, a stranger Z and then D call \<^verbatim>\<open>emergency-withdrawal\<close>: Z is
  not the depositor and the escrow is no longer Active, so both calls fail.
\<close>

definition failed_withdrawal_txs :: "escrow_tx list" where
  "failed_withdrawal_txs =
     partial_txs @ [(''Z'', 4, EmergencyWithdrawal 1), (''D'', 5, EmergencyWithdrawal 1)]"

text \<open>
  An escrow of \<open>2 ^ 128 - 1\<close> with a completed milestone of amount 0. D takes the refund
  after expiry; D's \<^verbatim>\<open>release-milestone-funds\<close> for the empty milestone then puts the
  Refunded escrow back to PartiallyReleased, open to a second refund.
\<close>

definition second_refund_txs :: "escrow_tx list" where
  "second_refund_txs =
     [(''D'', 0, CreateEscrow 1 ''B'' 340282366920938463463374607431768211455 1000 True),
      (''D'', 1, AddMilestone 1 ''nothing'' 0 500 None),
      (''B'', 2, CompleteMilestone 1 1),
      (''D'', 1000, RefundEscrow 1),
      (''D'', 1001, ReleaseMilestoneFunds 1 1)]"

text \<open>
  An escrow of the largest \<^verbatim>\<open>uint\<close>, \<open>2 ^ 128 - 1\<close>: the contract moves no tokens
  (the transfer is commented out), so nothing but the minimum bounds the amount.
\<close>

definition huge_txs :: "escrow_tx list" where
  "huge_txs =
     [(''D'', 0, CreateEscrow 1 ''B'' 340282366920938463463374607431768211455 1000 False)]"

section \<open>dispute-resolution: invariants\<close>

text \<open>
  A party's reputation score as \<^verbatim>\<open>update-party-reputation\<close> reads it: 100 for a party
  without a history record.
\<close>

definition current_score :: "dispute_state \<Rightarrow> principal \<Rightarrow> nat" where
  "current_score s party =
     (case dispute_history s party of None \<Rightarrow> 100 | Some h \<Rightarrow> reputation_score h)"

text \<open>
  What holds of every reachable state: the two parties of a dispute differ, an assigned
  arbitrator has a statistics record, and no score exceeds 100.
\<close>

definition dispute_ok :: "dispute_state \<Rightarrow> bool" where
  "dispute_ok s \<longleftrightarrow>
     (\<forall>k d. disputes s k = Some d \<longrightarrow> advertiser d \<noteq> publisher d)
   \<and> (\<forall>k a. arbitrator_assignments s k = Some a \<longrightarrow>
               arbitrator_stats s (arbitrator a) \<noteq> None)
   \<and> (\<forall>p h. dispute_history s p = Some h \<longrightarrow> reputation_score h \<le> 100)"

text \<open>
  The record \<^verbatim>\<open>update-party-reputation\<close> starts from (the stored one, or the default for
  a new party) and the record it writes when no counter overflows.
\<close>

definition party_record :: "dispute_state \<Rightarrow> principal \<Rightarrow> party_history" where
  "party_record s party =
     (case dispute_history s party of
        None \<Rightarrow> \<lparr>total_disputes = 0, disputes_won = 0, disputes_lost = 0,
                 reputation_score = 100\<rparr>
      | Some h \<Rightarrow> h)"

definition updated_record :: "bool \<Rightarrow> party_history \<Rightarrow> party_history" where
  "updated_record won h =
     \<lparr>total_disputes = total_disputes h + 1,
      disputes_won = (if won then disputes_won h + 1 else disputes_won h),
      disputes_lost = (if won then disputes_lost h else disputes_lost h + 1),
      reputation_score = (if won then min 100 (reputation_score h + 5)
                          else reputation_score h - 5)\<rparr>"

section \<open>dispute-resolution: example transactions\<close>

text \<open>
  A dispute of 2,000,000 opened by advertiser D against publisher P, assigned by the owner O
  to arbitrator A, who votes for the publisher; the owner executes the ruling.
\<close>

definition ruling_txs :: "dispute_tx list" where
  "ruling_txs =
     [(''D'', 0, OpenDispute 1 ''P'' TYPE_PAYMENT 2000000 ''unpaid'' True),
      (''O'', 1, AssignArbitrator 1 ''A''),
      (''A'', 2, VoteOnDispute 1 OUTCOME_PUBLISHER_WINS ''delivered'')]"

definition under_review_state :: dispute_state where
  "under_review_state = dispute_run (dispute_init ''O'') ruling_txs"

definition resolved_state :: dispute_state where
  "resolved_state = dispute_step ''O'' 3 (ExecuteRuling 1) under_review_state"

text \<open>
  Before the ruling is executed, the owner sets the auto-resolve threshold to \<open>2 ^ 127\<close>.
\<close>

definition huge_threshold_txs :: "dispute_tx list" where
  "huge_threshold_txs =
     ruling_txs @ [(''O'', 3, SetAutoResolveThreshold 170141183460469231731687303715884105728)]"

text \<open>Anybody closes the resolved dispute.\<close>

definition closed_state :: dispute_state where
  "closed_state = dispute_step ''Z'' 4 (CloseDispute 1) resolved_state"

section \<open>Evaluation rules\<close>

lemmas escrow_err_defs =
  err_owner_only_def err_not_found_def err_unauthorized_def err_insufficient_funds_def
  err_invalid_status_def err_milestone_incomplete_def err_escrow_expired_def
  err_escrow_active_def err_invalid_amount_def

lemmas escrow_status_defs =
  STATUS_ACTIVE_def STATUS_RELEASED_def STATUS_REFUNDED_def STATUS_PARTIALLY_RELEASED_def
  STATUS_EXPIRED_def MILESTONE_PENDING_def MILESTONE_COMPLETED_def MILESTONE_FAILED_def

lemmas dispute_err_defs =
  dr_err_owner_only_def dr_err_not_found_def dr_err_unauthorized_def dr_err_invalid_status_def
  err_already_resolved_def err_insufficient_amount_def err_invalid_party_def
  err_evidence_limit_def err_appeal_expired_def

lemmas dispute_const_defs =
  STATUS_OPEN_def STATUS_UNDER_REVIEW_def STATUS_RESOLVED_def STATUS_APPEALED_def
  STATUS_CLOSED_def TYPE_PAYMENT_def TYPE_FRAUD_def TYPE_QUALITY_def TYPE_CONTRACT_BREACH_def
  OUTCOME_ADVERTISER_WINS_def OUTCOME_PUBLISHER_WINS_def OUTCOME_SPLIT_def
  OUTCOME_DISMISSED_def

lemmas ctl_defs = bnd_def asserts_def unwrap_def uadd_def usub_def umul_def udiv_def

lemmas escrow_fun_defs =
  create_escrow_def add_milestone_def complete_milestone_def release_funds_def
  release_milestone_funds_def refund_escrow_def emergency_withdrawal_def
  extend_escrow_period_def set_min_escrow_amount_def set_emergency_fee_def
  update_user_pending_def get_milestone_count_def calculate_emergency_fee_def

lemmas dispute_fun_defs =
  open_dispute_def submit_evidence_def assign_arbitrator_def vote_on_dispute_def
  execute_ruling_def appeal_decision_def auto_resolve_dispute_def close_dispute_def
  register_arbitrator_def deactivate_arbitrator_def set_auto_resolve_threshold_def
  set_appeal_window_def update_party_reputation_def get_evidence_count_def
  is_valid_dispute_type_def is_valid_outcome_def

text \<open>Everything needed to run transactions on a concrete state with the simplifier.\<close>

lemmas escrow_eval =
  escrow_init_def commit_def escrow_fun_defs ctl_defs UINT_MAX_def Let_def
  escrow_status_defs escrow_err_defs

lemmas dispute_eval =
  dispute_init_def commit_def dispute_fun_defs ctl_defs UINT_MAX_def Let_def
  dispute_const_defs dispute_err_defs

section \<open>close-dispute\<close>

text \<open>
  C10. \<^verbatim>\<open>close-dispute\<close> checks no caller: for every principal \<open>sender\<close> (the
  owner, a party of the dispute, or anybody else) and every block time, the call on a
  dispute whose status is Resolved returns \<^verbatim>\<open>(ok true)\<close>, and the only write is the
  dispute's record, with status Closed and \<^verbatim>\<open>updated-at\<close> set to the block time.
\<close>

theorem close_dispute_any_caller:
  assumes "disputes s dispute_id = Some d" and "d_status d = STATUS_RESOLVED"
  shows "close_dispute sender now dispute_id s =
           Inr (True, s\<lparr>disputes := (disputes s)(dispute_id \<mapsto>
                          d\<lparr>d_status := STATUS_CLOSED, updated_at := now\<rparr>)\<rparr>)"
  using assms by (simp add: close_dispute_def unwrap_def asserts_def)

lemma resolved_state_dispute:
  "disputes resolved_state 1 =
     Some \<lparr>d_campaign_id = 1, advertiser = ''D'', publisher = ''P'', dispute_type = 1,
           d_amount = 2000000, d_status = 3, d_description = ''unpaid'', d_created_at = 0,
           updated_at = 3, resolution_deadline = 1440\<rparr>"
  by (simp add: resolved_state_def under_review_state_def ruling_txs_def dispute_eval)

theorem close_dispute_any_caller_witness:
  "\<exists>d. disputes resolved_state 1 = Some d \<and> d_status d = STATUS_RESOLVED
       \<and> ''Z'' \<noteq> dr_contract_owner resolved_state
       \<and> ''Z'' \<noteq> advertiser d \<and> ''Z'' \<noteq> publisher d
       \<and> close_dispute ''Z'' 9 1 resolved_state =
           Inr (True, resolved_state\<lparr>disputes := (disputes resolved_state)(1 \<mapsto>
                        d\<lparr>d_status := STATUS_CLOSED, updated_at := 9\<rparr>)\<rparr>)"
proof -
  let ?d = "\<lparr>d_campaign_id = 1, advertiser = ''D'', publisher = ''P'', dispute_type = 1,
             d_amount = 2000000, d_status = 3, d_description = ''unpaid'', d_created_at = 0,
             updated_at = 3, resolution_deadline = 1440\<rparr>"
  have st: "d_status ?d = STATUS_RESOLVED"
    by (simp add: STATUS_RESOLVED_def)
  have owner: "dr_contract_owner resolved_state = ''O''"
    by (simp add: resolved_state_def under_review_state_def ruling_txs_def dispute_eval)
  from close_dispute_any_caller [OF resolved_state_dispute st, of "''Z''" 9] owner
    resolved_state_dispute st
  show ?thesis by simp
qed

section \<open>escrow-manager: effects and invariants\<close>

subsection \<open>What a successful call writes\<close>

lemma create_escrow_Inr:
  assumes "create_escrow sender now c b a d r s = Inr (v, s')"
  shows "v = escrow_nonce s + 1 \<and> escrow_nonce s' = escrow_nonce s + 1
       \<and> milestone_nonce s' = milestone_nonce s
       \<and> escrow_releases s' = escrow_releases s
       \<and> escrow_accounts s' = (escrow_accounts s)(escrow_nonce s + 1 \<mapsto>
            \<lparr>campaign_id = c, depositor = sender, beneficiary = b, amount = a,
             released_amount = 0, status = STATUS_ACTIVE, created_at = now,
             expiry = now + d, requires_milestones = r\<rparr>)"
  using assms unfolding create_escrow_def update_user_pending_def ctl_defs Let_def
  by (auto split: if_splits option.splits)

lemma add_milestone_Inr:
  assumes "add_milestone sender now k d a dl h s = Inr (v, s')"
  shows "escrow_nonce s' = escrow_nonce s \<and> milestone_nonce s' = milestone_nonce s
       \<and> escrow_releases s' = escrow_releases s \<and> escrow_accounts s' = escrow_accounts s"
proof (cases "escrow_accounts s k")
  case None
  with assms show ?thesis by (simp add: add_milestone_def unwrap_def)
next
  case (Some e)
  with assms show ?thesis
    by (auto simp: add_milestone_def ctl_defs Let_def split: if_splits)
qed

lemma complete_milestone_Inr:
  assumes "complete_milestone sender now k m s = Inr (v, s')"
  shows "escrow_nonce s' = escrow_nonce s \<and> milestone_nonce s' = milestone_nonce s
       \<and> escrow_releases s' = escrow_releases s \<and> escrow_accounts s' = escrow_accounts s"
proof (cases "escrow_accounts s k")
  case None
  with assms show ?thesis by (simp add: complete_milestone_def unwrap_def)
next
  case e: (Some e)
  show ?thesis
  proof (cases "escrow_milestones s (k, m)")
    case None
    with assms e show ?thesis by (simp add: complete_milestone_def unwrap_def)
  next
    case (Some ms)
    with assms e show ?thesis
      by (auto simp: complete_milestone_def ctl_defs Let_def split: if_splits)
  qed
qed

lemma release_funds_Inr:
  assumes "release_funds sender now k amt why s = Inr (v, s')"
  obtains e where "escrow_accounts s k = Some e"
    and "released_amount e + amt \<le> amount e"
    and "s' = s\<lparr>escrow_releases := AList.update (k, milestone_nonce s + 1)
                  \<lparr>r_amount = amt, recipient = beneficiary e, reason = why,
                   released_at = now\<rparr> (escrow_releases s),
                escrow_accounts := (escrow_accounts s)(k \<mapsto>
                  e\<lparr>released_amount := released_amount e + amt,
                    status := (if released_amount e + amt = amount e then STATUS_RELEASED
                               else STATUS_PARTIALLY_RELEASED)\<rparr>),
                milestone_nonce := milestone_nonce s + 1\<rparr>"
proof (cases "escrow_accounts s k")
  case None
  with assms show ?thesis by (simp add: release_funds_def unwrap_def)
next
  case (Some e)
  with assms show ?thesis
    by (intro that [of e]) (auto simp: release_funds_def ctl_defs split: if_splits)
qed

lemma release_milestone_funds_Inr:
  assumes "release_milestone_funds sender now k m s = Inr (v, s')"
  obtains e ms where "escrow_accounts s k = Some e"
    and "escrow_milestones s (k, m) = Some ms"
    and "released_amount e + m_amount ms \<le> amount e"
    and "s' = s\<lparr>escrow_releases := AList.update (k, milestone_nonce s + 1)
                  \<lparr>r_amount = m_amount ms, recipient = beneficiary e,
                   reason = m_description ms, released_at = now\<rparr> (escrow_releases s),
                escrow_accounts := (escrow_accounts s)(k \<mapsto>
                  e\<lparr>released_amount := released_amount e + m_amount ms,
                    status := (if released_amount e + m_amount ms = amount e
                               then STATUS_RELEASED else STATUS_PARTIALLY_RELEASED)\<rparr>),
                milestone_nonce := milestone_nonce s + 1\<rparr>"
proof (cases "escrow_accounts s k")
  case None
  with assms show ?thesis by (simp add: release_milestone_funds_def unwrap_def)
next
  case e: (Some e)
  show ?thesis
  proof (cases "escrow_milestones s (k, m)")
    case None
    with assms e show ?thesis by (simp add: release_milestone_funds_def unwrap_def)
  next
    case (Some ms)
    with assms e show ?thesis
      by (intro that [of e ms])
         (auto simp: release_milestone_funds_def ctl_defs split: if_splits)
  qed
qed

lemma refund_escrow_Inr:
  assumes "refund_escrow sender now k s = Inr (v, s')"
  obtains e where "escrow_accounts s k = Some e"
    and "released_amount e \<le> amount e"
    and "status e = STATUS_ACTIVE \<or> status e = STATUS_PARTIALLY_RELEASED"
    and "escrow_nonce s' = escrow_nonce s" and "milestone_nonce s' = milestone_nonce s"
    and "escrow_releases s' = escrow_releases s"
    and "escrow_accounts s' = (escrow_accounts s)(k \<mapsto> e\<lparr>status := STATUS_REFUNDED\<rparr>)"
proof (cases "escrow_accounts s k")
  case None
  with assms show ?thesis by (simp add: refund_escrow_def unwrap_def)
next
  case (Some e)
  with assms show ?thesis
    by (intro that [of e]) (auto simp: refund_escrow_def ctl_defs Let_def split: if_splits)
qed

lemma emergency_withdrawal_Inr:
  assumes "emergency_withdrawal sender now k s = Inr (v, s')"
  obtains e where "escrow_accounts s k = Some e"
    and "released_amount e \<le> amount e"
    and "status e = STATUS_ACTIVE"
    and "s' = s\<lparr>escrow_accounts := (escrow_accounts s)(k \<mapsto>
                  e\<lparr>status := STATUS_REFUNDED, released_amount := amount e\<rparr>)\<rparr>"
proof (cases "escrow_accounts s k")
  case None
  with assms show ?thesis by (simp add: emergency_withdrawal_def unwrap_def)
next
  case (Some e)
  with assms show ?thesis
    by (intro that [of e])
       (auto simp: emergency_withdrawal_def calculate_emergency_fee_def ctl_defs
             split: if_splits sum.splits)
qed

lemma extend_escrow_period_Inr:
  assumes "extend_escrow_period sender now k t s = Inr (v, s')"
  obtains e where "escrow_accounts s k = Some e"
    and "status e = STATUS_ACTIVE"
    and "s' = s\<lparr>escrow_accounts := (escrow_accounts s)(k \<mapsto>
                  e\<lparr>expiry := expiry e + t\<rparr>)\<rparr>"
proof (cases "escrow_accounts s k")
  case None
  with assms show ?thesis by (simp add: extend_escrow_period_def unwrap_def)
next
  case (Some e)
  with assms show ?thesis
    by (intro that [of e]) (auto simp: extend_escrow_period_def ctl_defs split: if_splits)
qed

lemma set_min_escrow_amount_Inr:
  assumes "set_min_escrow_amount sender m s = Inr (v, s')"
  shows "s' = s\<lparr>min_escrow_amount := m\<rparr>"
  using assms by (auto simp: set_min_escrow_amount_def asserts_def split: if_splits)

lemma set_emergency_fee_Inr:
  assumes "set_emergency_fee sender f s = Inr (v, s')"
  shows "s' = s\<lparr>emergency_withdrawal_fee := f\<rparr>"
  using assms by (auto simp: set_emergency_fee_def asserts_def split: if_splits)


subsection \<open>One rule for all transactions\<close>

lemma escrow_step_cases [case_names Failed Create AddM CompleteM Release ReleaseM Refund
    Emergency Extend SetMin SetFee]:
  assumes "P s"
    and "\<And>c b a d r v s'. call = CreateEscrow c b a d r \<Longrightarrow>
           create_escrow sender now c b a d r s = Inr (v, s') \<Longrightarrow> P s'"
    and "\<And>k d a dl h v s'. call = AddMilestone k d a dl h \<Longrightarrow>
           add_milestone sender now k d a dl h s = Inr (v, s') \<Longrightarrow> P s'"
    and "\<And>k m v s'. call = CompleteMilestone k m \<Longrightarrow>
           complete_milestone sender now k m s = Inr (v, s') \<Longrightarrow> P s'"
    and "\<And>k a r v s'. call = ReleaseFunds k a r \<Longrightarrow>
           release_funds sender now k a r s = Inr (v, s') \<Longrightarrow> P s'"
    and "\<And>k m v s'. call = ReleaseMilestoneFunds k m \<Longrightarrow>
           release_milestone_funds sender now k m s = Inr (v, s') \<Longrightarrow> P s'"
    and "\<And>k v s'. call = RefundEscrow k \<Longrightarrow>
           refund_escrow sender now k s = Inr (v, s') \<Longrightarrow> P s'"
    and "\<And>k v s'. call = EmergencyWithdrawal k \<Longrightarrow>
           emergency_withdrawal sender now k s = Inr (v, s') \<Longrightarrow> P s'"
    and "\<And>k t v s'. call = ExtendEscrowPeriod k t \<Longrightarrow>
           extend_escrow_period sender now k t s = Inr (v, s') \<Longrightarrow> P s'"
    and "\<And>m v s'. call = SetMinEscrowAmount m \<Longrightarrow>
           set_min_escrow_amount sender m s = Inr (v, s') \<Longrightarrow> P s'"
    and "\<And>f v s'. call = SetEmergencyFee f \<Longrightarrow>
           set_emergency_fee sender f s = Inr (v, s') \<Longrightarrow> P s'"
  shows "P (escrow_step sender now call s)"
proof (cases call)
  case (CreateEscrow c b a d r)
  with assms(1,2) show ?thesis by (simp add: commit_def split: sum.split prod.split)
next
  case (AddMilestone k d a dl h)
  with assms(1,3) show ?thesis by (simp add: commit_def split: sum.split prod.split)
next
  case (CompleteMilestone k m)
  with assms(1,4) show ?thesis by (simp add: commit_def split: sum.split prod.split)
next
  case (ReleaseFunds k a r)
  with assms(1,5) show ?thesis by (simp add: commit_def split: sum.split prod.split)
next
  case (ReleaseMilestoneFunds k m)
  with assms(1,6) show ?thesis by (simp add: commit_def split: sum.split prod.split)
next
  case (RefundEscrow k)
  with assms(1,7) show ?thesis by (simp add: commit_def split: sum.split prod.split)
next
  case (EmergencyWithdrawal k)
  with assms(1,8) show ?thesis by (simp add: commit_def split: sum.split prod.split)
next
  case (ExtendEscrowPeriod k t)
  with assms(1,9) show ?thesis by (simp add: commit_def split: sum.split prod.split)
next
  case (SetMinEscrowAmount m)
  with assms(1,10) show ?thesis by (simp add: commit_def split: sum.split prod.split)
next
  case (SetEmergencyFee f)
  with assms(1,11) show ?thesis by (simp add: commit_def split: sum.split prod.split)
qed


subsection \<open>How one escrow's record can change\<close>

lemma escrow_step_account:
  "\<forall>e'. escrow_accounts (escrow_step sender now call s) k = Some e' \<longrightarrow>
     escrow_accounts s k = Some e'
   \<or> (released_amount e' = 0 \<and> status e' = STATUS_ACTIVE)
   \<or> (\<exists>e. escrow_accounts s k = Some e \<and> account_move e e')"
  (is "?P (escrow_step sender now call s)")
proof (rule escrow_step_cases)
  show "?P s" by simp
next
  fix c b a d r v s'
  assume "create_escrow sender now c b a d r s = Inr (v, s')"
  from create_escrow_Inr [OF this] show "?P s'" by auto
next
  fix k' d a dl h v s'
  assume "add_milestone sender now k' d a dl h s = Inr (v, s')"
  from add_milestone_Inr [OF this] show "?P s'" by simp
next
  fix k' m v s'
  assume "complete_milestone sender now k' m s = Inr (v, s')"
  from complete_milestone_Inr [OF this] show "?P s'" by simp
next
  fix k' a r v s'
  assume "release_funds sender now k' a r s = Inr (v, s')"
  then show "?P s'"
    by (elim release_funds_Inr) (auto simp: account_move_def)
next
  fix k' m v s'
  assume "release_milestone_funds sender now k' m s = Inr (v, s')"
  then show "?P s'"
    by (elim release_milestone_funds_Inr) (auto simp: account_move_def)
next
  fix k' v s'
  assume "refund_escrow sender now k' s = Inr (v, s')"
  then show "?P s'"
    by (elim refund_escrow_Inr) (auto simp: account_move_def)
next
  fix k' v s'
  assume "emergency_withdrawal sender now k' s = Inr (v, s')"
  then show "?P s'"
    by (elim emergency_withdrawal_Inr) (auto simp: account_move_def)
next
  fix k' t v s'
  assume "extend_escrow_period sender now k' t s = Inr (v, s')"
  then show "?P s'"
    by (elim extend_escrow_period_Inr) (auto simp: account_move_def)
next
  fix m v s'
  assume "set_min_escrow_amount sender m s = Inr (v, s')"
  from set_min_escrow_amount_Inr [OF this] show "?P s'" by simp
next
  fix f v s'
  assume "set_emergency_fee sender f s = Inr (v, s')"
  from set_emergency_fee_Inr [OF this] show "?P s'" by simp
qed

subsection \<open>The released amount stays within the amount\<close>

lemma account_move_balance:
  "account_move e e' \<Longrightarrow> released_amount e \<le> amount e \<Longrightarrow> released_amount e' \<le> amount e'"
  by (auto simp: account_move_def)

lemma balance_ok_step:
  assumes "balance_ok s"
  shows "balance_ok (escrow_step sender now call s)"
  unfolding balance_ok_def
proof (intro allI impI)
  fix k e'
  assume "escrow_accounts (escrow_step sender now call s) k = Some e'"
  with escrow_step_account [of sender now call s k]
  consider "escrow_accounts s k = Some e'" | "released_amount e' = 0"
    | e where "escrow_accounts s k = Some e" "account_move e e'"
    by auto
  then show "released_amount e' \<le> amount e'"
  proof cases
    case 1
    with assms show ?thesis by (simp add: balance_ok_def)
  next
    case 2
    then show ?thesis by simp
  next
    case 3
    with assms show ?thesis by (auto simp: balance_ok_def intro: account_move_balance)
  qed
qed

lemma balance_ok_run: "balance_ok s \<Longrightarrow> balance_ok (escrow_run s txs)"
  by (induction s txs rule: escrow_run.induct) (simp_all add: balance_ok_step)

lemma balance_ok_init: "balance_ok (escrow_init owner)"
  by (simp add: balance_ok_def escrow_init_def)

subsection \<open>Status and released amount\<close>

lemma account_move_status:
  assumes "account_move e e'"
    and "status e = STATUS_ACTIVE \<longrightarrow> released_amount e = 0"
  shows "(status e' = STATUS_ACTIVE \<longrightarrow> released_amount e' = 0)
       \<and> (status e' = STATUS_RELEASED \<longrightarrow> released_amount e' = amount e')
       \<and> (status e' = STATUS_PARTIALLY_RELEASED \<longrightarrow> released_amount e' \<noteq> amount e')
       \<and> (status e' = STATUS_ACTIVE \<or> status e' = STATUS_RELEASED
          \<or> status e' = STATUS_REFUNDED \<or> status e' = STATUS_PARTIALLY_RELEASED)"
proof -
  have neq: "STATUS_RELEASED \<noteq> STATUS_ACTIVE" "STATUS_PARTIALLY_RELEASED \<noteq> STATUS_ACTIVE"
    "STATUS_REFUNDED \<noteq> STATUS_ACTIVE" "STATUS_REFUNDED \<noteq> STATUS_RELEASED"
    "STATUS_REFUNDED \<noteq> STATUS_PARTIALLY_RELEASED"
    "STATUS_RELEASED \<noteq> STATUS_PARTIALLY_RELEASED"
    by (simp_all add: escrow_status_defs)
  from assms(1) consider
      x where "released_amount e + x \<le> amount e"
        "e' = e\<lparr>released_amount := released_amount e + x,
                 status := (if released_amount e + x = amount e then STATUS_RELEASED
                            else STATUS_PARTIALLY_RELEASED)\<rparr>"
    | "e' = e\<lparr>status := STATUS_REFUNDED\<rparr>"
    | "e' = e\<lparr>status := STATUS_REFUNDED, released_amount := amount e\<rparr>"
    | t where "status e = STATUS_ACTIVE" "e' = e\<lparr>expiry := expiry e + t\<rparr>"
    unfolding account_move_def by blast
  then show ?thesis
  proof cases
    case 1
    with neq show ?thesis by (cases "released_amount e + x = amount e") simp_all
  next
    case 2
    with neq show ?thesis by simp
  next
    case 3
    with neq show ?thesis by simp
  next
    case 4
    with assms(2) show ?thesis by (simp add: escrow_status_defs)
  qed
qed

lemma status_ok_step:
  assumes "status_ok s"
  shows "status_ok (escrow_step sender now call s)"
  unfolding status_ok_def
proof (intro allI impI)
  fix k e'
  assume "escrow_accounts (escrow_step sender now call s) k = Some e'"
  with escrow_step_account [of sender now call s k]
  consider "escrow_accounts s k = Some e'"
    | "released_amount e' = 0" "status e' = STATUS_ACTIVE"
    | e where "escrow_accounts s k = Some e" "account_move e e'"
    by auto
  then show "(status e' = STATUS_ACTIVE \<longrightarrow> released_amount e' = 0)
       \<and> (status e' = STATUS_RELEASED \<longrightarrow> released_amount e' = amount e')
       \<and> (status e' = STATUS_PARTIALLY_RELEASED \<longrightarrow> released_amount e' \<noteq> amount e')
       \<and> (status e' = STATUS_ACTIVE \<or> status e' = STATUS_RELEASED
          \<or> status e' = STATUS_REFUNDED \<or> status e' = STATUS_PARTIALLY_RELEASED)"
  proof cases
    case 1
    with assms show ?thesis unfolding status_ok_def by blast
  next
    case 2
    then show ?thesis by (simp add: escrow_status_defs)
  next
    case 3
    from assms 3(1) have "status e = STATUS_ACTIVE \<longrightarrow> released_amount e = 0"
      unfolding status_ok_def by blast
    with 3(2) show ?thesis by (rule account_move_status)
  qed
qed

lemma status_ok_run: "status_ok s \<Longrightarrow> status_ok (escrow_run s txs)"
  by (induction s txs rule: escrow_run.induct) (simp_all add: status_ok_step)

lemma status_ok_init: "status_ok (escrow_init owner)"
  by (simp add: status_ok_def escrow_init_def)

subsection \<open>Identifiers and the release ledger\<close>

lemma update_fresh_key:
  "key \<notin> fst ` set al \<Longrightarrow> AList.update key v al = al @ [(key, v)]"
  by (induction al) auto

lemma release_total_unchanged:
  "escrow_releases s' = escrow_releases s \<Longrightarrow> release_total s' k = release_total s k"
  by (simp add: release_total_def)

lemma release_total_append:
  assumes "(k', r) \<notin> fst ` set (escrow_releases s)"
    and "escrow_releases s' = AList.update (k', r) v (escrow_releases s)"
  shows "release_total s' k = release_total s k + (if k' = k then r_amount v else 0)"
  using assms by (simp add: release_total_def update_fresh_key)

lemma release_total_no_key:
  assumes "\<forall>key \<in> fst ` set (escrow_releases s). fst key \<noteq> k"
  shows "release_total s k = 0"
proof -
  have "filter (\<lambda>kv. fst (fst kv) = k) (escrow_releases s) = []"
    using assms by (auto simp: filter_empty_conv)
  then show ?thesis by (simp add: release_total_def)
qed

lemma ids_ok_fresh_release:
  "ids_ok s \<Longrightarrow> (k, milestone_nonce s + 1) \<notin> fst ` set (escrow_releases s)"
  unfolding ids_ok_def by fastforce

lemma ids_ok_step:
  assumes "ids_ok s"
  shows "ids_ok (escrow_step sender now call s)"
proof (rule escrow_step_cases)
  show "ids_ok s" by fact
next
  fix c b a d r v s'
  assume "create_escrow sender now c b a d r s = Inr (v, s')"
  from create_escrow_Inr [OF this] assms show "ids_ok s'"
    by (auto simp: ids_ok_def le_Suc_eq)
next
  fix k d a dl h v s'
  assume "add_milestone sender now k d a dl h s = Inr (v, s')"
  from add_milestone_Inr [OF this] assms show "ids_ok s'"
    by (simp add: ids_ok_def)
next
  fix k m v s'
  assume "complete_milestone sender now k m s = Inr (v, s')"
  from complete_milestone_Inr [OF this] assms show "ids_ok s'"
    by (simp add: ids_ok_def)
next
  fix k a r v s'
  assume "release_funds sender now k a r s = Inr (v, s')"
  then show "ids_ok s'"
    using assms by (elim release_funds_Inr) (auto simp: ids_ok_def dom_update le_Suc_eq)
next
  fix k m v s'
  assume "release_milestone_funds sender now k m s = Inr (v, s')"
  then show "ids_ok s'"
    using assms
    by (elim release_milestone_funds_Inr) (auto simp: ids_ok_def dom_update le_Suc_eq)
next
  fix k v s'
  assume "refund_escrow sender now k s = Inr (v, s')"
  then show "ids_ok s'"
    using assms by (elim refund_escrow_Inr) (auto simp: ids_ok_def)
next
  fix k v s'
  assume "emergency_withdrawal sender now k s = Inr (v, s')"
  then show "ids_ok s'"
    using assms by (elim emergency_withdrawal_Inr) (auto simp: ids_ok_def)
next
  fix k t v s'
  assume "extend_escrow_period sender now k t s = Inr (v, s')"
  then show "ids_ok s'"
    using assms by (elim extend_escrow_period_Inr) (auto simp: ids_ok_def)
next
  fix m v s'
  assume "set_min_escrow_amount sender m s = Inr (v, s')"
  from set_min_escrow_amount_Inr [OF this] assms show "ids_ok s'"
    by (simp add: ids_ok_def)
next
  fix f v s'
  assume "set_emergency_fee sender f s = Inr (v, s')"
  from set_emergency_fee_Inr [OF this] assms show "ids_ok s'"
    by (simp add: ids_ok_def)
qed

lemma ids_ok_run: "ids_ok s \<Longrightarrow> ids_ok (escrow_run s txs)"
  by (induction s txs rule: escrow_run.induct) (simp_all add: ids_ok_step)

lemma ids_ok_init: "ids_ok (escrow_init owner)"
  by (simp add: ids_ok_def escrow_init_def)

lemma ledger_release:
  assumes ids: "ids_ok s" and led: "ledger_ok s k"
    and e: "escrow_accounts s k' = Some e"
    and rel: "escrow_releases s' = AList.update (k', milestone_nonce s + 1) v (escrow_releases s)"
    and acc: "escrow_accounts s' = (escrow_accounts s)(k' \<mapsto> e')"
    and amt: "released_amount e' = released_amount e + r_amount v"
  shows "ledger_ok s' k"
proof -
  have fresh: "(k', milestone_nonce s + 1) \<notin> fst ` set (escrow_releases s)"
    using ids by (rule ids_ok_fresh_release)
  have tot: "release_total s' k = release_total s k + (if k' = k then r_amount v else 0)"
    using fresh rel by (rule release_total_append)
  show ?thesis
  proof (cases "k' = k")
    case True
    with led e have "release_total s k = released_amount e"
      by (simp add: ledger_ok_def)
    with tot True acc amt show ?thesis
      by (simp add: ledger_ok_def)
  next
    case False
    with tot have "release_total s' k = release_total s k" by simp
    with led acc False show ?thesis
      by (simp add: ledger_ok_def)
  qed
qed

lemma ledger_same_releases:
  assumes led: "ledger_ok s k"
    and rel: "escrow_releases s' = escrow_releases s"
    and acc: "map_option released_amount (escrow_accounts s' k)
              = map_option released_amount (escrow_accounts s k)"
  shows "ledger_ok s' k"
proof -
  have "release_total s' k = release_total s k"
    using rel by (rule release_total_unchanged)
  with led acc show ?thesis
    by (cases "escrow_accounts s k"; cases "escrow_accounts s' k") (simp_all add: ledger_ok_def)
qed

lemma ledger_ok_step:
  assumes ids: "ids_ok s" and led: "ledger_ok s k"
    and call: "call \<noteq> EmergencyWithdrawal k"
  shows "ledger_ok (escrow_step sender now call s) k"
proof (rule escrow_step_cases)
  show "ledger_ok s k" by fact
next
  fix c b a d r v s'
  assume "create_escrow sender now c b a d r s = Inr (v, s')"
  note eff = create_escrow_Inr [OF this]
  show "ledger_ok s' k"
  proof (cases "k = escrow_nonce s + 1")
    case True
    with ids have none: "escrow_accounts s k = None"
      unfolding ids_ok_def by fastforce
    with led have "release_total s k = 0" by (simp add: ledger_ok_def)
    moreover have "release_total s' k = release_total s k"
      using eff by (intro release_total_unchanged) simp
    ultimately show ?thesis using eff True by (simp add: ledger_ok_def)
  next
    case False
    with eff show ?thesis by (intro ledger_same_releases [OF led]) simp_all
  qed
next
  fix k' d a dl h v s'
  assume "add_milestone sender now k' d a dl h s = Inr (v, s')"
  from add_milestone_Inr [OF this] show "ledger_ok s' k"
    by (intro ledger_same_releases [OF led]) simp_all
next
  fix k' m v s'
  assume "complete_milestone sender now k' m s = Inr (v, s')"
  from complete_milestone_Inr [OF this] show "ledger_ok s' k"
    by (intro ledger_same_releases [OF led]) simp_all
next
  fix k' a r v s'
  assume "release_funds sender now k' a r s = Inr (v, s')"
  then obtain e where e: "escrow_accounts s k' = Some e"
    and s': "s' = s\<lparr>escrow_releases := AList.update (k', milestone_nonce s + 1)
                  \<lparr>r_amount = a, recipient = beneficiary e, reason = r,
                   released_at = now\<rparr> (escrow_releases s),
                escrow_accounts := (escrow_accounts s)(k' \<mapsto>
                  e\<lparr>released_amount := released_amount e + a,
                    status := (if released_amount e + a = amount e then STATUS_RELEASED
                               else STATUS_PARTIALLY_RELEASED)\<rparr>),
                milestone_nonce := milestone_nonce s + 1\<rparr>"
    by (rule release_funds_Inr) (rule that)
  from s' have rel: "escrow_releases s' = AList.update (k', milestone_nonce s + 1)
      \<lparr>r_amount = a, recipient = beneficiary e, reason = r, released_at = now\<rparr>
      (escrow_releases s)"
    by simp
  from s' have acc: "escrow_accounts s' = (escrow_accounts s)(k' \<mapsto>
      e\<lparr>released_amount := released_amount e + a,
        status := (if released_amount e + a = amount e then STATUS_RELEASED
                   else STATUS_PARTIALLY_RELEASED)\<rparr>)"
    by simp
  show "ledger_ok s' k"
    by (rule ledger_release [OF ids led e rel acc]) simp
next
  fix k' m v s'
  assume "release_milestone_funds sender now k' m s = Inr (v, s')"
  then obtain e ms where e: "escrow_accounts s k' = Some e"
    and ms: "escrow_milestones s (k', m) = Some ms"
    and s': "s' = s\<lparr>escrow_releases := AList.update (k', milestone_nonce s + 1)
                  \<lparr>r_amount = m_amount ms, recipient = beneficiary e,
                   reason = m_description ms, released_at = now\<rparr> (escrow_releases s),
                escrow_accounts := (escrow_accounts s)(k' \<mapsto>
                  e\<lparr>released_amount := released_amount e + m_amount ms,
                    status := (if released_amount e + m_amount ms = amount e
                               then STATUS_RELEASED else STATUS_PARTIALLY_RELEASED)\<rparr>),
                milestone_nonce := milestone_nonce s + 1\<rparr>"
    by (rule release_milestone_funds_Inr) (rule that)
  from s' have rel: "escrow_releases s' = AList.update (k', milestone_nonce s + 1)
      \<lparr>r_amount = m_amount ms, recipient = beneficiary e, reason = m_description ms,
       released_at = now\<rparr> (escrow_releases s)"
    by simp
  from s' have acc: "escrow_accounts s' = (escrow_accounts s)(k' \<mapsto>
      e\<lparr>released_amount := released_amount e + m_amount ms,
        status := (if released_amount e + m_amount ms = amount e then STATUS_RELEASED
                   else STATUS_PARTIALLY_RELEASED)\<rparr>)"
    by simp
  show "ledger_ok s' k"
    by (rule ledger_release [OF ids led e rel acc]) simp
next
  fix k' v s'
  assume "refund_escrow sender now k' s = Inr (v, s')"
  then show "ledger_ok s' k"
    by (elim refund_escrow_Inr, intro ledger_same_releases [OF led]) simp_all
next
  fix k' v s'
  assume "call = EmergencyWithdrawal k'"
    and "emergency_withdrawal sender now k' s = Inr (v, s')"
  with call show "ledger_ok s' k"
    by (elim emergency_withdrawal_Inr, intro ledger_same_releases [OF led]) simp_all
next
  fix k' t v s'
  assume "extend_escrow_period sender now k' t s = Inr (v, s')"
  then show "ledger_ok s' k"
    by (elim extend_escrow_period_Inr, intro ledger_same_releases [OF led]) simp_all
next
  fix m v s'
  assume "set_min_escrow_amount sender m s = Inr (v, s')"
  from set_min_escrow_amount_Inr [OF this] show "ledger_ok s' k"
    by (intro ledger_same_releases [OF led]) simp_all
next
  fix f v s'
  assume "set_emergency_fee sender f s = Inr (v, s')"
  from set_emergency_fee_Inr [OF this] show "ledger_ok s' k"
    by (intro ledger_same_releases [OF led]) simp_all
qed

lemma ledger_ok_step_unless_withdrawn:
  assumes "ids_ok s" and "ledger_ok s k"
    and "\<not> (call = EmergencyWithdrawal k \<and> is_ok (emergency_withdrawal sender now k s))"
  shows "ledger_ok (escrow_step sender now call s) k"
proof (cases "call = EmergencyWithdrawal k")
  case True
  with assms(3) have "\<not> is_ok (emergency_withdrawal sender now k s)"
    by simp
  then obtain err where "emergency_withdrawal sender now k s = Inl err"
    by (cases "emergency_withdrawal sender now k s") (simp_all add: is_ok_def)
  with True assms(2) show ?thesis
    by (simp add: commit_def)
next
  case False
  with assms(1,2) show ?thesis
    by (rule ledger_ok_step)
qed

lemma ledger_ok_run:
  assumes "ids_ok s" and "ledger_ok s k" and "\<not> emergency_withdrawn s txs k"
  shows "ledger_ok (escrow_run s txs) k"
  using assms
proof (induction s txs rule: escrow_run.induct)
  case (1 s)
  then show ?case by simp
next
  case (2 s sender now c txs)
  then show ?case by (simp add: ids_ok_step ledger_ok_step_unless_withdrawn)
qed

lemma ledger_ok_init: "ledger_ok (escrow_init owner) k"
  by (simp add: ledger_ok_def release_total_def escrow_init_def)

section \<open>Release records and the released amount\<close>

lemma partial_state_account:
  "escrow_accounts (escrow_run (escrow_init ''O'') partial_txs) 1 =
     Some \<lparr>campaign_id = 1, depositor = ''D'', beneficiary = ''B'', amount = 1000000,
           released_amount = 600000, status = 4, created_at = 0, expiry = 1000,
           requires_milestones = True\<rparr>"
  by (simp add: partial_txs_def milestone_txs_def escrow_eval)

lemma partial_state_releases:
  "escrow_releases (escrow_run (escrow_init ''O'') partial_txs) =
     [((1, 1), \<lparr>r_amount = 600000, recipient = ''B'', reason = ''phase one'',
               released_at = 3\<rparr>)]"
  by (simp add: partial_txs_def milestone_txs_def escrow_eval)

lemma withdrawn_state_account:
  "escrow_accounts (escrow_run (escrow_init ''O'') withdrawn_txs) 1 =
     Some \<lparr>campaign_id = 1, depositor = ''D'', beneficiary = ''B'', amount = 1000000,
           released_amount = 1000000, status = 3, created_at = 0, expiry = 1000,
           requires_milestones = False\<rparr>"
  by (simp add: withdrawn_txs_def escrow_eval)

lemma withdrawn_state_releases:
  "escrow_releases (escrow_run (escrow_init ''O'') withdrawn_txs) = []"
  by (simp add: withdrawn_txs_def escrow_eval)

lemma failed_withdrawal_state_account:
  "escrow_accounts (escrow_run (escrow_init ''O'') failed_withdrawal_txs) 1 =
     Some \<lparr>campaign_id = 1, depositor = ''D'', beneficiary = ''B'', amount = 1000000,
           released_amount = 600000, status = 4, created_at = 0, expiry = 1000,
           requires_milestones = True\<rparr>"
  by (simp add: failed_withdrawal_txs_def partial_txs_def milestone_txs_def escrow_eval)

lemma failed_withdrawal_none_ok:
  "\<not> emergency_withdrawn (escrow_init ''O'') failed_withdrawal_txs 1"
  by (simp add: failed_withdrawal_txs_def partial_txs_def milestone_txs_def is_ok_def
        escrow_eval)

text \<open>
  C1, as the code has it. For an escrow on which no call of \<^verbatim>\<open>emergency-withdrawal\<close> has
  succeeded (calls that failed do not count: they write nothing), in every state reached
  from deployment by any transactions, the amounts of the Release records stored for the
  escrow add up to its \<^verbatim>\<open>released-amount\<close>.
\<close>

theorem release_total_eq_released:
  assumes "\<not> emergency_withdrawn (escrow_init owner) txs k"
    and "escrow_accounts (escrow_run (escrow_init owner) txs) k = Some e"
  shows "release_total (escrow_run (escrow_init owner) txs) k = released_amount e"
proof -
  from ids_ok_init ledger_ok_init assms(1)
  have "ledger_ok (escrow_run (escrow_init owner) txs) k"
    by (rule ledger_ok_run)
  with assms(2) show ?thesis by (simp add: ledger_ok_def)
qed

theorem release_total_eq_released_witness:
  "\<not> emergency_withdrawn (escrow_init ''O'') failed_withdrawal_txs 1
   \<and> EmergencyWithdrawal 1 \<in> set (map (snd \<circ> snd) failed_withdrawal_txs)
   \<and> map_option released_amount
       (escrow_accounts (escrow_run (escrow_init ''O'') failed_withdrawal_txs) 1)
       = Some 600000
   \<and> release_total (escrow_run (escrow_init ''O'') failed_withdrawal_txs) 1 = 600000"
proof -
  have called: "EmergencyWithdrawal 1 \<in> set (map (snd \<circ> snd) failed_withdrawal_txs)"
    by (simp add: failed_withdrawal_txs_def)
  from release_total_eq_released [OF failed_withdrawal_none_ok
      failed_withdrawal_state_account]
  show ?thesis
    using failed_withdrawal_none_ok failed_withdrawal_state_account called by simp
qed

text \<open>
  The claim as stated fails: \<^verbatim>\<open>emergency-withdrawal\<close> sets \<^verbatim>\<open>released-amount\<close> to the whole
  amount and stores no Release record. After D opens an escrow of 1,000,000 and withdraws
  it, the escrow's released amount is 1,000,000 and its Release records add up to 0.
\<close>

theorem release_total_counterexample:
  "\<exists>e. escrow_accounts (escrow_run (escrow_init ''O'') withdrawn_txs) 1 = Some e
       \<and> released_amount e = 1000000
       \<and> release_total (escrow_run (escrow_init ''O'') withdrawn_txs) 1 = 0
       \<and> release_total (escrow_run (escrow_init ''O'') withdrawn_txs) 1 \<noteq> released_amount e"
  using withdrawn_state_account withdrawn_state_releases
  by (simp add: release_total_def)

section \<open>Status Released and a drained escrow\<close>

lemma full_release_state_account:
  "escrow_accounts (escrow_run (escrow_init ''O'') full_release_txs) 1 =
     Some \<lparr>campaign_id = 1, depositor = ''D'', beneficiary = ''B'', amount = 1000000,
           released_amount = 1000000, status = 2, created_at = 0, expiry = 1000,
           requires_milestones = False\<rparr>"
  by (simp add: full_release_txs_def escrow_eval)

text \<open>
  C2, as the code has it. In every state reached from deployment, an escrow whose status
  is Released has \<^verbatim>\<open>released-amount\<close> equal to its amount; and an escrow whose
  \<^verbatim>\<open>released-amount\<close> equals its amount is Released or Refunded, or it is an Active escrow
  of amount 0.
\<close>

theorem released_status_relation:
  assumes "escrow_accounts (escrow_run (escrow_init owner) txs) k = Some e"
  shows "(status e = STATUS_RELEASED \<longrightarrow> released_amount e = amount e)
       \<and> (released_amount e = amount e \<longrightarrow>
            status e = STATUS_RELEASED \<or> status e = STATUS_REFUNDED
          \<or> (status e = STATUS_ACTIVE \<and> amount e = 0))"
proof -
  have "status_ok (escrow_run (escrow_init owner) txs)"
    using status_ok_init by (rule status_ok_run)
  with assms have
    "(status e = STATUS_ACTIVE \<longrightarrow> released_amount e = 0)
   \<and> (status e = STATUS_RELEASED \<longrightarrow> released_amount e = amount e)
   \<and> (status e = STATUS_PARTIALLY_RELEASED \<longrightarrow> released_amount e \<noteq> amount e)
   \<and> (status e = STATUS_ACTIVE \<or> status e = STATUS_RELEASED
      \<or> status e = STATUS_REFUNDED \<or> status e = STATUS_PARTIALLY_RELEASED)"
    unfolding status_ok_def by blast
  then show ?thesis by auto
qed

theorem released_status_relation_witness:
  "\<exists>e. escrow_accounts (escrow_run (escrow_init ''O'') full_release_txs) 1 = Some e
       \<and> status e = STATUS_RELEASED \<and> released_amount e = amount e"
  using released_status_relation [OF full_release_state_account] full_release_state_account
  by (simp add: STATUS_RELEASED_def)

text \<open>
  The claim as stated fails from right to left: after an emergency withdrawal the released
  amount equals the amount and the status is Refunded, not Released.
\<close>

theorem released_status_counterexample:
  "\<exists>e. escrow_accounts (escrow_run (escrow_init ''O'') withdrawn_txs) 1 = Some e
       \<and> released_amount e = amount e \<and> status e = STATUS_REFUNDED
       \<and> \<not> (status e = STATUS_RELEASED \<longleftrightarrow> released_amount e = amount e)"
  using withdrawn_state_account by (simp add: escrow_status_defs)

section \<open>Terminal escrow states\<close>

lemma refunded_state_account:
  "escrow_accounts (escrow_run (escrow_init ''O'') refunded_txs) 1 =
     Some \<lparr>campaign_id = 1, depositor = ''D'', beneficiary = ''B'', amount = 1000000,
           released_amount = 0, status = 3, created_at = 0, expiry = 1000,
           requires_milestones = True\<rparr>"
  by (simp add: refunded_txs_def milestone_txs_def escrow_eval)

text \<open>
  C3 fails on the code. \<^verbatim>\<open>release-milestone-funds\<close> asserts nothing about the escrow's
  status (\<^verbatim>\<open>release-funds\<close> asserts Active, \<^verbatim>\<open>refund-escrow\<close> Active or PartiallyReleased).
  After D has taken the refund of the whole escrow (status Refunded, nothing released), D's
  call of \<^verbatim>\<open>release-milestone-funds\<close> for the completed milestone of 600,000 returns
  \<^verbatim>\<open>(ok true)\<close>: the escrow leaves Refunded for PartiallyReleased with 600,000 released.
\<close>

theorem refunded_escrow_released_again:
  "map_option status (escrow_accounts (escrow_run (escrow_init ''O'') refunded_txs) 1)
     = Some STATUS_REFUNDED
   \<and> (\<exists>s'. release_milestone_funds ''D'' 1001 1 1
               (escrow_run (escrow_init ''O'') refunded_txs) = Inr (True, s')
          \<and> map_option status (escrow_accounts s' 1) = Some STATUS_PARTIALLY_RELEASED
          \<and> map_option released_amount (escrow_accounts s' 1) = Some 600000)"
  by (simp add: refunded_txs_def milestone_txs_def escrow_eval)

section \<open>Released amount and remaining balance\<close>

lemma partial_state_milestone:
  "escrow_milestones (escrow_run (escrow_init ''O'') partial_txs) (1, 1) =
     Some \<lparr>m_description = ''phase one'', m_amount = 600000, m_status = 2,
           condition_hash = None, deadline = 500, completed_at = 2\<rparr>"
  by (simp add: partial_txs_def milestone_txs_def escrow_eval)

lemma partial_state_nonce:
  "milestone_nonce (escrow_run (escrow_init ''O'') partial_txs) = 1"
  by (simp add: partial_txs_def milestone_txs_def escrow_eval)

lemma partial_state_history:
  "escrow_history (escrow_run (escrow_init ''O'') partial_txs) ''D'' = None"
  by (simp add: partial_txs_def milestone_txs_def escrow_eval)

lemma release_milestone_funds_exceeding:
  assumes "escrow_accounts s k = Some e" and "escrow_milestones s (k, m) = Some ms"
    and "released_amount e \<le> amount e"
    and "amount e - released_amount e < m_amount ms"
  shows "\<exists>err. release_milestone_funds sender now k m s = Inl err"
    and "sender = depositor e \<Longrightarrow> m_status ms = MILESTONE_COMPLETED \<Longrightarrow>
         milestone_nonce s < UINT_MAX \<Longrightarrow>
         release_milestone_funds sender now k m s = Inl err_insufficient_funds"
  using assms by (simp_all add: release_milestone_funds_def ctl_defs)

text \<open>
  C5. In every state reached from deployment by any transactions, every escrow has
  \<open>0 \<le> released_amount \<le> amount\<close> (the lower bound is the type's). In such a state a
  call of \<^verbatim>\<open>release-milestone-funds\<close> for a milestone whose amount exceeds the remaining
  balance \<open>amount - released_amount\<close> always fails and writes nothing; made by the depositor
  for a Completed milestone it fails with \<^verbatim>\<open>err-insufficient-funds\<close> (the release counter
  being below the largest \<^verbatim>\<open>uint\<close>, where the call would abort earlier).
\<close>

theorem released_within_amount:
  assumes "escrow_accounts (escrow_run (escrow_init owner) txs) k = Some e"
  shows "0 \<le> released_amount e \<and> released_amount e \<le> amount e
       \<and> (\<forall>m ms sender now.
             escrow_milestones (escrow_run (escrow_init owner) txs) (k, m) = Some ms
             \<and> amount e - released_amount e < m_amount ms
           \<longrightarrow> (\<exists>err. release_milestone_funds sender now k m
                         (escrow_run (escrow_init owner) txs) = Inl err)
             \<and> (sender = depositor e \<and> m_status ms = MILESTONE_COMPLETED
                \<and> milestone_nonce (escrow_run (escrow_init owner) txs) < UINT_MAX
                \<longrightarrow> release_milestone_funds sender now k m
                      (escrow_run (escrow_init owner) txs) = Inl err_insufficient_funds))"
proof -
  have "balance_ok (escrow_run (escrow_init owner) txs)"
    using balance_ok_init by (rule balance_ok_run)
  with assms have le: "released_amount e \<le> amount e"
    by (simp add: balance_ok_def)
  with assms show ?thesis
    by (auto dest: release_milestone_funds_exceeding)
qed

theorem released_within_amount_witness:
  "map_option released_amount
     (escrow_accounts (escrow_run (escrow_init ''O'') partial_txs) 1) = Some 600000
   \<and> map_option amount
     (escrow_accounts (escrow_run (escrow_init ''O'') partial_txs) 1) = Some 1000000
   \<and> map_option m_amount
     (escrow_milestones (escrow_run (escrow_init ''O'') partial_txs) (1, 1)) = Some 600000
   \<and> release_milestone_funds ''D'' 4 1 1 (escrow_run (escrow_init ''O'') partial_txs)
       = Inl err_insufficient_funds"
proof -
  let ?ms = "\<lparr>m_description = ''phase one'', m_amount = 600000, m_status = 2,
              condition_hash = None, deadline = 500, completed_at = 2\<rparr>"
  note inst = released_within_amount [OF partial_state_account, THEN conjunct2,
      THEN conjunct2, rule_format, of 1 ?ms "''D''" 4]
  have "release_milestone_funds ''D'' 4 1 1 (escrow_run (escrow_init ''O'') partial_txs)
       = Inl err_insufficient_funds"
    using inst partial_state_milestone partial_state_nonce
    by (simp add: UINT_MAX_def MILESTONE_COMPLETED_def)
  then show ?thesis
    using partial_state_account partial_state_milestone by simp
qed

section \<open>refund-escrow\<close>

text \<open>
  C6, as the code has it. In every state reached from deployment, for an existing escrow:
  a call of \<^verbatim>\<open>refund-escrow\<close> before the expiry time fails whatever the status
  (\<^verbatim>\<open>err-escrow-active\<close> for the depositor, \<^verbatim>\<open>err-unauthorized\<close> for anybody else); a call
  by the depositor at or after the expiry time on an Active or PartiallyReleased escrow
  returns the unreleased balance \<open>amount - released_amount\<close> and sets the status to
  Refunded, leaving the rest of the record as it was, when the depositor's refunded total
  plus that balance stays within the \<^verbatim>\<open>uint\<close> range; when the sum exceeds it, the call
  aborts.
\<close>

theorem refund_escrow_behaviour:
  assumes "escrow_accounts (escrow_run (escrow_init owner) txs) k = Some e"
  shows "(now < expiry e \<longrightarrow>
            refund_escrow sender now k (escrow_run (escrow_init owner) txs)
              = Inl (if sender = depositor e then err_escrow_active else err_unauthorized))
       \<and> (sender = depositor e \<and> expiry e \<le> now
            \<and> (status e = STATUS_ACTIVE \<or> status e = STATUS_PARTIALLY_RELEASED)
            \<and> (case escrow_history (escrow_run (escrow_init owner) txs) (depositor e) of
                  None \<Rightarrow> 0 | Some h \<Rightarrow> total_refunded h)
                + (amount e - released_amount e) \<le> UINT_MAX
          \<longrightarrow> (\<exists>s'. refund_escrow sender now k (escrow_run (escrow_init owner) txs)
                        = Inr (amount e - released_amount e, s')
                   \<and> escrow_accounts s' k = Some (e\<lparr>status := STATUS_REFUNDED\<rparr>)))
       \<and> (sender = depositor e \<and> expiry e \<le> now
            \<and> (status e = STATUS_ACTIVE \<or> status e = STATUS_PARTIALLY_RELEASED)
            \<and> UINT_MAX
                < (case escrow_history (escrow_run (escrow_init owner) txs) (depositor e) of
                     None \<Rightarrow> 0 | Some h \<Rightarrow> total_refunded h)
                  + (amount e - released_amount e)
          \<longrightarrow> refund_escrow sender now k (escrow_run (escrow_init owner) txs)
                = Inl RuntimeAbort)"
proof -
  have "balance_ok (escrow_run (escrow_init owner) txs)"
    using balance_ok_init by (rule balance_ok_run)
  with assms have le: "released_amount e \<le> amount e"
    by (simp add: balance_ok_def)
  show ?thesis
  proof (cases "escrow_history (escrow_run (escrow_init owner) txs) (depositor e)")
    case None
    with assms le show ?thesis
      by (simp add: refund_escrow_def ctl_defs Let_def)
  next
    case (Some h)
    with assms le show ?thesis
      by (simp add: refund_escrow_def ctl_defs Let_def)
  qed
qed

theorem refund_escrow_behaviour_witness:
  "refund_escrow ''D'' 999 1 (escrow_run (escrow_init ''O'') partial_txs)
     = Inl err_escrow_active
   \<and> (\<exists>s'. refund_escrow ''D'' 1000 1 (escrow_run (escrow_init ''O'') partial_txs)
              = Inr (400000, s')
          \<and> map_option status (escrow_accounts s' 1) = Some STATUS_REFUNDED
          \<and> map_option released_amount (escrow_accounts s' 1) = Some 600000)"
proof -
  have early: "refund_escrow ''D'' 999 1 (escrow_run (escrow_init ''O'') partial_txs)
     = Inl err_escrow_active"
    using refund_escrow_behaviour [OF partial_state_account, of 999 "''D''"] by simp
  have late: "\<exists>s'. refund_escrow ''D'' 1000 1 (escrow_run (escrow_init ''O'') partial_txs)
              = Inr (400000, s')
          \<and> map_option status (escrow_accounts s' 1) = Some STATUS_REFUNDED
          \<and> map_option released_amount (escrow_accounts s' 1) = Some 600000"
    using refund_escrow_behaviour [OF partial_state_account, of 1000 "''D''"]
      partial_state_history
    by (auto simp: escrow_status_defs UINT_MAX_def)
  from early late show ?thesis by simp
qed

text \<open>
  The claim as stated fails: the depositor's call after expiry on a PartiallyReleased
  escrow need not return the balance. D's escrow of \<open>2 ^ 128 - 1\<close> is refunded in full;
  \<^verbatim>\<open>release-milestone-funds\<close>, which checks no status, then releases a completed milestone
  of amount 0 and leaves the escrow PartiallyReleased with nothing released. D's refunded
  total is \<open>2 ^ 128 - 1\<close> already, and the second refund aborts on adding the balance.
\<close>

theorem refund_escrow_counterexample:
  "escrow_accounts (escrow_run (escrow_init ''O'') second_refund_txs) 1 =
     Some \<lparr>campaign_id = 1, depositor = ''D'', beneficiary = ''B'',
           amount = 340282366920938463463374607431768211455, released_amount = 0,
           status = STATUS_PARTIALLY_RELEASED, created_at = 0, expiry = 1000,
           requires_milestones = True\<rparr>
   \<and> map_option total_refunded
       (escrow_history (escrow_run (escrow_init ''O'') second_refund_txs) ''D'')
       = Some 340282366920938463463374607431768211455
   \<and> refund_escrow ''D'' 1002 1 (escrow_run (escrow_init ''O'') second_refund_txs)
       = Inl RuntimeAbort"
  by (simp add: second_refund_txs_def escrow_eval)

section \<open>create-escrow\<close>

lemma milestone_state_vars:
  "escrow_nonce (escrow_run (escrow_init ''O'') milestone_txs) = 1"
  "min_escrow_amount (escrow_run (escrow_init ''O'') milestone_txs) = 100000"
  "max_escrow_duration (escrow_run (escrow_init ''O'') milestone_txs) = 52560"
  "total_escrowed (escrow_run (escrow_init ''O'') milestone_txs) = 1000000"
  "pending_escrows (escrow_run (escrow_init ''O'') milestone_txs) ''D''
     = Some \<lparr>total_locked = 1000000, total_escrowed_out = 0\<rparr>"
  by (simp_all add: milestone_txs_def escrow_eval)

text \<open>
  C9, as the code has it. In every state reached from deployment, \<^verbatim>\<open>create-escrow\<close> first
  computes the next escrow id \<open>escrow_nonce + 1\<close> and the expiry \<open>now + duration\<close>, and
  aborts when either exceeds the \<^verbatim>\<open>uint\<close> range. When both fit, it fails with
  \<^verbatim>\<open>err-invalid-amount\<close> (u108) when the amount is below the minimum; otherwise with
  \<^verbatim>\<open>err-invalid-status\<close> (u104), the contract's error for a wrong status, when the duration
  exceeds the maximum; otherwise with \<^verbatim>\<open>err-unauthorized\<close> (u102) when the beneficiary is
  the caller; otherwise, when the caller's locked total and the global escrowed total stay
  within the \<^verbatim>\<open>uint\<close> range with the amount added, it returns the id \<open>escrow_nonce + 1\<close>,
  which no escrow had before, and stores the Active escrow under it; and when one of the
  two totals leaves the range, it aborts.
\<close>

theorem create_escrow_outcomes:
  "(UINT_MAX < escrow_nonce (escrow_run (escrow_init owner) txs) + 1
      \<or> UINT_MAX < now + duration \<longrightarrow>
      create_escrow sender now c b amt duration r (escrow_run (escrow_init owner) txs)
        = Inl RuntimeAbort)
   \<and> (escrow_nonce (escrow_run (escrow_init owner) txs) + 1 \<le> UINT_MAX
        \<and> now + duration \<le> UINT_MAX \<longrightarrow>
       (amt < min_escrow_amount (escrow_run (escrow_init owner) txs) \<longrightarrow>
          create_escrow sender now c b amt duration r (escrow_run (escrow_init owner) txs)
            = Inl err_invalid_amount)
     \<and> (min_escrow_amount (escrow_run (escrow_init owner) txs) \<le> amt
          \<and> max_escrow_duration (escrow_run (escrow_init owner) txs) < duration \<longrightarrow>
          create_escrow sender now c b amt duration r (escrow_run (escrow_init owner) txs)
            = Inl err_invalid_status)
     \<and> (min_escrow_amount (escrow_run (escrow_init owner) txs) \<le> amt
          \<and> duration \<le> max_escrow_duration (escrow_run (escrow_init owner) txs)
          \<and> sender = b \<longrightarrow>
          create_escrow sender now c b amt duration r (escrow_run (escrow_init owner) txs)
            = Inl err_unauthorized)
     \<and> (min_escrow_amount (escrow_run (escrow_init owner) txs) \<le> amt
          \<and> duration \<le> max_escrow_duration (escrow_run (escrow_init owner) txs)
          \<and> sender \<noteq> b
          \<and> (case pending_escrows (escrow_run (escrow_init owner) txs) sender of
                None \<Rightarrow> 0 | Some p \<Rightarrow> total_locked p) + amt \<le> UINT_MAX
          \<and> total_escrowed (escrow_run (escrow_init owner) txs) + amt \<le> UINT_MAX \<longrightarrow>
          escrow_accounts (escrow_run (escrow_init owner) txs)
            (escrow_nonce (escrow_run (escrow_init owner) txs) + 1) = None
          \<and> (\<exists>s'. create_escrow sender now c b amt duration r
                       (escrow_run (escrow_init owner) txs)
                     = Inr (escrow_nonce (escrow_run (escrow_init owner) txs) + 1, s')
                 \<and> escrow_accounts s'
                       (escrow_nonce (escrow_run (escrow_init owner) txs) + 1)
                     = Some \<lparr>campaign_id = c, depositor = sender, beneficiary = b,
                             amount = amt, released_amount = 0, status = STATUS_ACTIVE,
                             created_at = now, expiry = now + duration,
                             requires_milestones = r\<rparr>))
     \<and> (min_escrow_amount (escrow_run (escrow_init owner) txs) \<le> amt
          \<and> duration \<le> max_escrow_duration (escrow_run (escrow_init owner) txs)
          \<and> sender \<noteq> b
          \<and> (UINT_MAX
                < (case pending_escrows (escrow_run (escrow_init owner) txs) sender of
                     None \<Rightarrow> 0 | Some p \<Rightarrow> total_locked p) + amt
              \<or> UINT_MAX < total_escrowed (escrow_run (escrow_init owner) txs) + amt)
          \<longrightarrow>
          create_escrow sender now c b amt duration r (escrow_run (escrow_init owner) txs)
            = Inl RuntimeAbort))"
  (is "?early \<and> (?fits \<longrightarrow> ?amount \<and> ?duration \<and> ?caller \<and> ?success \<and> ?late)")
proof -
  let ?s = "escrow_run (escrow_init owner) txs"
  have "ids_ok ?s"
    using ids_ok_init by (rule ids_ok_run)
  then have "escrow_accounts ?s (escrow_nonce ?s + 1) \<noteq> None
      \<longrightarrow> escrow_nonce ?s + 1 \<le> escrow_nonce ?s"
    unfolding ids_ok_def by blast
  then have fresh: "escrow_accounts ?s (escrow_nonce ?s + 1) = None"
    by simp
  have "?early"
    by (auto simp: create_escrow_def ctl_defs)
  moreover have "?amount" and "?duration" and "?caller" if "?fits"
    using that by (simp_all add: create_escrow_def ctl_defs)
  moreover have "?success" if "?fits"
    using that fresh
    by (cases "pending_escrows ?s sender"; cases r)
       (simp_all add: create_escrow_def update_user_pending_def ctl_defs Let_def)
  moreover have "?late" if "?fits"
    using that
    by (cases "pending_escrows ?s sender"; cases r)
       (auto simp: create_escrow_def update_user_pending_def ctl_defs Let_def)
  ultimately show ?thesis by blast
qed

theorem create_escrow_outcomes_witness:
  "create_escrow ''D'' 10 2 ''C'' 99999 500 False
       (escrow_run (escrow_init ''O'') milestone_txs) = Inl err_invalid_amount
   \<and> create_escrow ''D'' 10 2 ''C'' 200000 52561 False
       (escrow_run (escrow_init ''O'') milestone_txs) = Inl err_invalid_status
   \<and> create_escrow ''D'' 10 2 ''D'' 200000 500 False
       (escrow_run (escrow_init ''O'') milestone_txs) = Inl err_unauthorized
   \<and> escrow_accounts (escrow_run (escrow_init ''O'') milestone_txs) 2 = None
   \<and> (\<exists>s'. create_escrow ''D'' 10 2 ''C'' 200000 500 False
               (escrow_run (escrow_init ''O'') milestone_txs) = Inr (2, s')
          \<and> map_option status (escrow_accounts s' 2) = Some STATUS_ACTIVE)
   \<and> create_escrow ''D'' 10 2 ''C'' 200000 340282366920938463463374607431768211455 False
       (escrow_run (escrow_init ''O'') milestone_txs) = Inl RuntimeAbort"
proof -
  have nonce: "escrow_nonce (escrow_run (escrow_init ''O'') milestone_txs) + 1 \<le> UINT_MAX"
    by (simp add: milestone_state_vars UINT_MAX_def)
  have t1: "10 + (500::nat) \<le> UINT_MAX" and t2: "10 + (52561::nat) \<le> UINT_MAX"
    by (simp_all add: UINT_MAX_def)
  have t3: "UINT_MAX < 10 + (340282366920938463463374607431768211455::nat)"
    by (simp add: UINT_MAX_def)
  note fits1 = create_escrow_outcomes [where owner = "''O''" and txs = milestone_txs
      and now = 10 and duration = 500, THEN conjunct2, THEN mp, OF conjI [OF nonce t1]]
  note fits2 = create_escrow_outcomes [where owner = "''O''" and txs = milestone_txs
      and now = 10 and duration = 52561, THEN conjunct2, THEN mp, OF conjI [OF nonce t2]]
  from fits1 [of 99999 "''D''" 2 "''C''" False]
  have a: "create_escrow ''D'' 10 2 ''C'' 99999 500 False
       (escrow_run (escrow_init ''O'') milestone_txs) = Inl err_invalid_amount"
    by (simp add: milestone_state_vars)
  from fits2 [of 200000 "''D''" 2 "''C''" False]
  have b: "create_escrow ''D'' 10 2 ''C'' 200000 52561 False
       (escrow_run (escrow_init ''O'') milestone_txs) = Inl err_invalid_status"
    by (simp add: milestone_state_vars)
  from fits1 [of 200000 "''D''" 2 "''D''" False]
  have c: "create_escrow ''D'' 10 2 ''D'' 200000 500 False
       (escrow_run (escrow_init ''O'') milestone_txs) = Inl err_unauthorized"
    by (simp add: milestone_state_vars)
  have next_id: "escrow_nonce (escrow_run (escrow_init ''O'') milestone_txs) + 1 = 2"
    by (simp add: milestone_state_vars)
  have room: "1000000 + (200000::nat) \<le> UINT_MAX"
    by (simp add: UINT_MAX_def)
  note inst = fits1 [of 200000 "''D''" 2 "''C''" False,
      THEN conjunct2, THEN conjunct2, THEN conjunct2, THEN conjunct1, unfolded next_id]
  from inst room
  have d: "escrow_accounts (escrow_run (escrow_init ''O'') milestone_txs) 2 = None
   \<and> (\<exists>s'. create_escrow ''D'' 10 2 ''C'' 200000 500 False
               (escrow_run (escrow_init ''O'') milestone_txs) = Inr (2, s')
          \<and> map_option status (escrow_accounts s' 2) = Some STATUS_ACTIVE)"
    by (auto simp: milestone_state_vars(2-5))
  from create_escrow_outcomes [where owner = "''O''" and txs = milestone_txs
      and now = 10 and duration = 340282366920938463463374607431768211455
      and sender = "''D''" and c = 2 and b = "''C''" and amt = 200000 and r = False,
      THEN conjunct1] t3
  have e: "create_escrow ''D'' 10 2 ''C'' 200000 340282366920938463463374607431768211455
       False (escrow_run (escrow_init ''O'') milestone_txs) = Inl RuntimeAbort"
    by simp
  from a b c d e show ?thesis by simp
qed

text \<open>
  The claim as stated fails twice. The contract has no error of its own for the duration:
  a duration of 52561 (one above the maximum) is answered with \<^verbatim>\<open>err-invalid-status\<close>
  (u104), the error that \<^verbatim>\<open>extend-escrow-period\<close> returns for an escrow that is not Active.
  And a call that passes the three checks need not succeed: once an escrow of
  \<open>2 ^ 128 - 1\<close> exists, the global escrowed total cannot take another amount, and a
  well-formed call by another depositor aborts.
\<close>

theorem create_escrow_counterexample:
  "create_escrow ''D'' 0 1 ''B'' 100000 52561 False (escrow_init ''O'') = Inl (Err 104)
   \<and> extend_escrow_period ''D'' 6 1 10 (escrow_run (escrow_init ''O'') withdrawn_txs)
       = Inl (Err 104)
   \<and> err_invalid_status = Err 104
   \<and> min_escrow_amount (escrow_run (escrow_init ''O'') huge_txs) \<le> 100000
   \<and> 1000 \<le> max_escrow_duration (escrow_run (escrow_init ''O'') huge_txs)
   \<and> ''E'' \<noteq> ''B''
   \<and> create_escrow ''E'' 1 2 ''B'' 100000 1000 False
       (escrow_run (escrow_init ''O'') huge_txs) = Inl RuntimeAbort"
  by (simp add: huge_txs_def withdrawn_txs_def escrow_eval)

section \<open>appeal-decision\<close>

lemma resolved_state_outcome:
  "dispute_outcomes resolved_state 1 =
     Some \<lparr>o_outcome = 2, winner = ''P'', amount_transferred = 2000000,
           o_reasoning = ''delivered'', resolved_at = 3, o_can_appeal = True\<rparr>"
  by (simp add: resolved_state_def under_review_state_def ruling_txs_def dispute_eval)

lemma resolved_state_window: "appeal_window resolved_state = 1440"
  by (simp add: resolved_state_def under_review_state_def ruling_txs_def dispute_eval)

text \<open>
  C4 fails on the code. \<^verbatim>\<open>appeal-decision\<close> asserts nothing about the dispute's status
  (every other transition asserts its source status). After the ruling of the example is
  executed and the dispute is closed, party D's appeal inside the window returns
  \<^verbatim>\<open>(ok true)\<close> and the dispute leaves Closed for Appealed; a second appeal succeeds as
  well, on the Appealed dispute.
\<close>

theorem closed_dispute_appealed:
  "map_option d_status (disputes closed_state 1) = Some STATUS_CLOSED
   \<and> (\<exists>s'. appeal_decision ''D'' 5 1 ''unfair'' closed_state = Inr (True, s')
          \<and> map_option d_status (disputes s' 1) = Some STATUS_APPEALED
          \<and> (\<exists>s''. appeal_decision ''P'' 6 1 ''again'' s' = Inr (True, s'')
                 \<and> map_option updated_at (disputes s'' 1) = Some 6))"
  by (simp add: closed_state_def resolved_state_def under_review_state_def ruling_txs_def
        dispute_eval)

text \<open>
  C8. \<^verbatim>\<open>appeal-decision\<close> returns \<^verbatim>\<open>(ok true)\<close> only when the recorded outcome has
  \<^verbatim>\<open>can-appeal\<close> true and the time elapsed since \<^verbatim>\<open>resolved-at\<close> is strictly below the
  appeal window; called by a party of the dispute under these conditions it does succeed
  and sets the status to Appealed. When the elapsed time equals the window exactly the call
  fails, for a party and an appealable outcome with \<^verbatim>\<open>err-appeal-expired\<close>.
\<close>

theorem appeal_decision_window:
  "(appeal_decision sender now k why s = Inr r \<longrightarrow>
      (\<exists>oc. dispute_outcomes s k = Some oc \<and> o_can_appeal oc
            \<and> resolved_at oc \<le> now \<and> now - resolved_at oc < appeal_window s))
   \<and> (disputes s k = Some d \<and> dispute_outcomes s k = Some oc
        \<and> (sender = advertiser d \<or> sender = publisher d) \<and> o_can_appeal oc
        \<and> resolved_at oc \<le> now \<and> now - resolved_at oc < appeal_window s \<longrightarrow>
        appeal_decision sender now k why s
          = Inr (True, s\<lparr>disputes := (disputes s)(k \<mapsto>
                          d\<lparr>d_status := STATUS_APPEALED, updated_at := now\<rparr>)\<rparr>))
   \<and> (disputes s k = Some d \<and> dispute_outcomes s k = Some oc
        \<and> now = resolved_at oc + appeal_window s \<longrightarrow>
        (\<exists>err. appeal_decision sender now k why s = Inl err)
        \<and> ((sender = advertiser d \<or> sender = publisher d) \<and> o_can_appeal oc \<longrightarrow>
             appeal_decision sender now k why s = Inl err_appeal_expired))"
proof (cases "disputes s k")
  case None
  then show ?thesis by (simp add: appeal_decision_def unwrap_def)
next
  case d: (Some d')
  show ?thesis
  proof (cases "dispute_outcomes s k")
    case None
    with d show ?thesis by (simp add: appeal_decision_def unwrap_def)
  next
    case (Some oc')
    with d show ?thesis
      by (simp add: appeal_decision_def ctl_defs)
  qed
qed

theorem appeal_decision_window_witness:
  "appeal_decision ''D'' 1443 1 ''unfair'' resolved_state = Inl err_appeal_expired
   \<and> (\<exists>s'. appeal_decision ''D'' 1442 1 ''unfair'' resolved_state = Inr (True, s')
          \<and> map_option d_status (disputes s' 1) = Some STATUS_APPEALED)
   \<and> map_option o_can_appeal (dispute_outcomes resolved_state 1) = Some True
   \<and> map_option resolved_at (dispute_outcomes resolved_state 1) = Some 3
   \<and> appeal_window resolved_state = 1440"
proof -
  let ?d = "\<lparr>d_campaign_id = 1, advertiser = ''D'', publisher = ''P'', dispute_type = 1,
             d_amount = 2000000, d_status = 3, d_description = ''unpaid'', d_created_at = 0,
             updated_at = 3, resolution_deadline = 1440\<rparr>"
  let ?oc = "\<lparr>o_outcome = 2, winner = ''P'', amount_transferred = 2000000,
              o_reasoning = ''delivered'', resolved_at = 3, o_can_appeal = True\<rparr>"
  note at_window = appeal_decision_window [of "''D''" 1443 1 "''unfair''" resolved_state
      "(True, resolved_state)" ?d ?oc, THEN conjunct2, THEN conjunct2]
  note inside = appeal_decision_window [of "''D''" 1442 1 "''unfair''" resolved_state
      "(True, resolved_state)" ?d ?oc, THEN conjunct2, THEN conjunct1]
  have expired: "appeal_decision ''D'' 1443 1 ''unfair'' resolved_state
      = Inl err_appeal_expired"
    using at_window resolved_state_dispute resolved_state_outcome resolved_state_window
    by simp
  have ok: "\<exists>s'. appeal_decision ''D'' 1442 1 ''unfair'' resolved_state = Inr (True, s')
          \<and> map_option d_status (disputes s' 1) = Some STATUS_APPEALED"
    using inside resolved_state_dispute resolved_state_outcome resolved_state_window
    by simp
  from expired ok show ?thesis
    using resolved_state_outcome resolved_state_window by simp
qed

section \<open>dispute-resolution: effects and invariants\<close>

lemma dispute_step_cases:
  assumes "P s"
    and "\<And>c p t a d f v s'. open_dispute sender now c p t a d f s = Inr (v, s') \<Longrightarrow> P s'"
    and "\<And>k t h x v s'. submit_evidence sender now k t h x s = Inr (v, s') \<Longrightarrow> P s'"
    and "\<And>k a v s'. assign_arbitrator sender now k a s = Inr (v, s') \<Longrightarrow> P s'"
    and "\<And>k oc r v s'. vote_on_dispute sender now k oc r s = Inr (v, s') \<Longrightarrow> P s'"
    and "\<And>k v s'. execute_ruling sender now k s = Inr (v, s') \<Longrightarrow> P s'"
    and "\<And>k r v s'. appeal_decision sender now k r s = Inr (v, s') \<Longrightarrow> P s'"
    and "\<And>k v s'. auto_resolve_dispute sender now k s = Inr (v, s') \<Longrightarrow> P s'"
    and "\<And>k v s'. close_dispute sender now k s = Inr (v, s') \<Longrightarrow> P s'"
    and "\<And>a v s'. register_arbitrator sender a s = Inr (v, s') \<Longrightarrow> P s'"
    and "\<And>a v s'. deactivate_arbitrator sender a s = Inr (v, s') \<Longrightarrow> P s'"
    and "\<And>n v s'. set_auto_resolve_threshold sender n s = Inr (v, s') \<Longrightarrow> P s'"
    and "\<And>n v s'. set_appeal_window sender n s = Inr (v, s') \<Longrightarrow> P s'"
  shows "P (dispute_step sender now call s)"
proof (cases call)
  case (OpenDispute c p t a d f)
  with assms(1,2) show ?thesis by (simp add: commit_def split: sum.split prod.split)
next
  case (SubmitEvidence k t h x)
  with assms(1,3) show ?thesis by (simp add: commit_def split: sum.split prod.split)
next
  case (AssignArbitrator k a)
  with assms(1,4) show ?thesis by (simp add: commit_def split: sum.split prod.split)
next
  case (VoteOnDispute k oc r)
  with assms(1,5) show ?thesis by (simp add: commit_def split: sum.split prod.split)
next
  case (ExecuteRuling k)
  with assms(1,6) show ?thesis by (simp add: commit_def split: sum.split prod.split)
next
  case (AppealDecision k r)
  with assms(1,7) show ?thesis by (simp add: commit_def split: sum.split prod.split)
next
  case (AutoResolveDispute k)
  with assms(1,8) show ?thesis by (simp add: commit_def split: sum.split prod.split)
next
  case (CloseDispute k)
  with assms(1,9) show ?thesis by (simp add: commit_def split: sum.split prod.split)
next
  case (RegisterArbitrator a)
  with assms(1,10) show ?thesis by (simp add: commit_def split: sum.split prod.split)
next
  case (DeactivateArbitrator a)
  with assms(1,11) show ?thesis by (simp add: commit_def split: sum.split prod.split)
next
  case (SetAutoResolveThreshold n)
  with assms(1,12) show ?thesis by (simp add: commit_def split: sum.split prod.split)
next
  case (SetAppealWindow n)
  with assms(1,13) show ?thesis by (simp add: commit_def split: sum.split prod.split)
qed

subsection \<open>update-party-reputation\<close>

lemma current_score_party_record:
  "current_score s party = reputation_score (party_record s party)"
  by (simp add: current_score_def party_record_def split: option.split)

lemma update_party_reputation_Inr:
  assumes "update_party_reputation party won s = Inr s'"
  shows "s' = s\<lparr>dispute_history := (dispute_history s)(party \<mapsto>
                  updated_record won (party_record s party))\<rparr>"
proof (cases "dispute_history s party")
  case None
  with assms show ?thesis
    by (cases won)
       (auto simp: update_party_reputation_def party_record_def updated_record_def
             ctl_defs Let_def split: if_splits)
next
  case (Some h0)
  with assms show ?thesis
    by (cases won)
       (auto simp: update_party_reputation_def party_record_def updated_record_def
             ctl_defs Let_def split: if_splits)
qed

lemma update_party_reputation_fits:
  assumes "total_disputes (party_record s party) < UINT_MAX"
    and "disputes_won (party_record s party) < UINT_MAX"
    and "disputes_lost (party_record s party) < UINT_MAX"
    and "reputation_score (party_record s party) \<le> 100"
  shows "update_party_reputation party won s
           = Inr (s\<lparr>dispute_history := (dispute_history s)(party \<mapsto>
                      updated_record won (party_record s party))\<rparr>)"
proof -
  have "(105::nat) \<le> UINT_MAX" by (simp add: UINT_MAX_def)
  with assms show ?thesis
    by (cases "dispute_history s party"; cases won)
       (simp_all add: update_party_reputation_def party_record_def updated_record_def
          ctl_defs Let_def)
qed

subsection \<open>execute-ruling\<close>

lemma party_record_cong:
  "dispute_history s' party = dispute_history s party \<Longrightarrow>
   party_record s' party = party_record s party"
  by (simp add: party_record_def)

lemma execute_ruling_result:
  assumes d: "disputes s k = Some d" and st: "d_status d = STATUS_UNDER_REVIEW"
    and own: "sender = dr_contract_owner s"
    and asg: "arbitrator_assignments s k = Some asg"
    and v: "arbitrator_votes s (k, arbitrator asg) = Some v"
    and stats: "arbitrator_stats s (arbitrator asg) = Some ast"
    and ne: "advertiser d \<noteq> publisher d"
    and thr: "auto_resolve_threshold s * 5 \<le> UINT_MAX"
    and res: "total_disputes_resolved s < UINT_MAX"
    and cr: "cases_resolved ast < UINT_MAX"
    and adv: "total_disputes (party_record s (advertiser d)) < UINT_MAX"
      "disputes_won (party_record s (advertiser d)) < UINT_MAX"
      "disputes_lost (party_record s (advertiser d)) < UINT_MAX"
      "reputation_score (party_record s (advertiser d)) \<le> 100"
    and pub: "total_disputes (party_record s (publisher d)) < UINT_MAX"
      "disputes_won (party_record s (publisher d)) < UINT_MAX"
      "disputes_lost (party_record s (publisher d)) < UINT_MAX"
      "reputation_score (party_record s (publisher d)) \<le> 100"
  shows "execute_ruling sender now k s =
    Inr (True,
      s\<lparr>disputes := (disputes s)(k \<mapsto> d\<lparr>d_status := STATUS_RESOLVED, updated_at := now\<rparr>),
        dispute_outcomes := (dispute_outcomes s)(k \<mapsto>
          \<lparr>o_outcome = v_outcome v,
           winner = (if v_outcome v = OUTCOME_ADVERTISER_WINS then advertiser d
                     else if v_outcome v = OUTCOME_PUBLISHER_WINS then publisher d
                     else dr_contract_owner s),
           amount_transferred = (if v_outcome v = OUTCOME_SPLIT then d_amount d div 2
                                 else d_amount d),
           o_reasoning = v_reasoning v, resolved_at = now,
           o_can_appeal = (auto_resolve_threshold s * 5 \<le> d_amount d)\<rparr>),
        dispute_history := (dispute_history s)
          (advertiser d \<mapsto> updated_record (v_outcome v = OUTCOME_ADVERTISER_WINS)
                             (party_record s (advertiser d)),
           publisher d \<mapsto> updated_record (v_outcome v = OUTCOME_PUBLISHER_WINS)
                             (party_record s (publisher d))),
        arbitrator_stats := (arbitrator_stats s)(arbitrator asg \<mapsto>
          ast\<lparr>cases_resolved := cases_resolved ast + 1\<rparr>),
        total_disputes_resolved := total_disputes_resolved s + 1\<rparr>)"
proof -
  let ?won_a = "v_outcome v = OUTCOME_ADVERTISER_WINS"
  let ?won_p = "v_outcome v = OUTCOME_PUBLISHER_WINS"
  let ?s2 = "s\<lparr>disputes := (disputes s)(k \<mapsto>
                 d\<lparr>d_status := STATUS_RESOLVED, updated_at := now\<rparr>),
               dispute_outcomes := (dispute_outcomes s)(k \<mapsto>
          \<lparr>o_outcome = v_outcome v,
           winner = (if v_outcome v = OUTCOME_ADVERTISER_WINS then advertiser d
                     else if v_outcome v = OUTCOME_PUBLISHER_WINS then publisher d
                     else dr_contract_owner s),
           amount_transferred = (if v_outcome v = OUTCOME_SPLIT then d_amount d div 2
                                 else d_amount d),
           o_reasoning = v_reasoning v, resolved_at = now,
           o_can_appeal = (auto_resolve_threshold s * 5 \<le> d_amount d)\<rparr>)\<rparr>"
  let ?s3 = "?s2\<lparr>dispute_history := (dispute_history ?s2)(advertiser d \<mapsto>
                 updated_record ?won_a (party_record ?s2 (advertiser d)))\<rparr>"
  have ra: "party_record ?s2 (advertiser d) = party_record s (advertiser d)"
    by (rule party_record_cong) simp
  have u1: "update_party_reputation (advertiser d) ?won_a ?s2 = Inr ?s3"
    by (rule update_party_reputation_fits) (simp_all only: ra adv)
  have rp: "party_record ?s3 (publisher d) = party_record s (publisher d)"
    using ne by (intro party_record_cong) simp
  have u2: "update_party_reputation (publisher d) ?won_p ?s3
      = Inr (?s3\<lparr>dispute_history := (dispute_history ?s3)(publisher d \<mapsto>
                 updated_record ?won_p (party_record ?s3 (publisher d)))\<rparr>)"
    by (rule update_party_reputation_fits) (simp_all only: rp pub)
  from res cr have "total_disputes_resolved s + 1 \<le> UINT_MAX"
    "cases_resolved ast + 1 \<le> UINT_MAX"
    by simp_all
  moreover have "(if v_outcome v = OUTCOME_SPLIT then udiv (d_amount d) 2
       else Inr (d_amount d))
      = Inr (if v_outcome v = OUTCOME_SPLIT then d_amount d div 2 else d_amount d)"
    by (simp add: udiv_def)
  ultimately show ?thesis
    using d st own asg v stats thr u1 u2 ra rp ne
    by (simp add: execute_ruling_def bnd_def asserts_def unwrap_def uadd_def umul_def
          Let_def split del: if_split)
qed

lemma updated_record_score:
  "reputation_score h \<le> 100 \<Longrightarrow> reputation_score (updated_record won h) \<le> 100"
  by (auto simp: updated_record_def)

lemma party_record_score:
  assumes "\<forall>p h. dispute_history s p = Some h \<longrightarrow> reputation_score h \<le> 100"
  shows "reputation_score (party_record s party) \<le> 100"
  using assms by (cases "dispute_history s party") (simp_all add: party_record_def)

lemma execute_ruling_Inr:
  assumes ok: "execute_ruling sender now k s = Inr (r, s')"
  obtains d asg ast oc ha hp where "disputes s k = Some d"
    and "arbitrator_assignments s k = Some asg"
    and "arbitrator_stats s (arbitrator asg) = Some ast"
    and "\<exists>w. ha = updated_record w (party_record s (advertiser d))"
    and "\<exists>w. hp = updated_record w (party_record
           (s\<lparr>dispute_history := (dispute_history s)(advertiser d \<mapsto> ha)\<rparr>) (publisher d))"
    and "s' = s\<lparr>disputes := (disputes s)(k \<mapsto>
                    d\<lparr>d_status := STATUS_RESOLVED, updated_at := now\<rparr>),
                dispute_outcomes := (dispute_outcomes s)(k \<mapsto> oc),
                dispute_history := (dispute_history s)
                  (advertiser d \<mapsto> ha, publisher d \<mapsto> hp),
                arbitrator_stats := (arbitrator_stats s)(arbitrator asg \<mapsto>
                  ast\<lparr>cases_resolved := cases_resolved ast + 1\<rparr>),
                total_disputes_resolved := total_disputes_resolved s + 1\<rparr>"
proof -
  obtain d where d: "disputes s k = Some d"
    using ok by (cases "disputes s k") (simp_all add: execute_ruling_def unwrap_def)
  obtain asg where asg: "arbitrator_assignments s k = Some asg"
    using ok d
    by (cases "arbitrator_assignments s k") (simp_all add: execute_ruling_def unwrap_def)
  obtain v where v: "arbitrator_votes s (k, arbitrator asg) = Some v"
    using ok d asg
    by (cases "arbitrator_votes s (k, arbitrator asg)")
       (simp_all add: execute_ruling_def unwrap_def)
  let ?won_a = "v_outcome v = OUTCOME_ADVERTISER_WINS"
  let ?won_p = "v_outcome v = OUTCOME_PUBLISHER_WINS"
  let ?oc = "\<lparr>o_outcome = v_outcome v,
           winner = (if v_outcome v = OUTCOME_ADVERTISER_WINS then advertiser d
                     else if v_outcome v = OUTCOME_PUBLISHER_WINS then publisher d
                     else dr_contract_owner s),
           amount_transferred = (if v_outcome v = OUTCOME_SPLIT then d_amount d div 2
                                 else d_amount d),
           o_reasoning = v_reasoning v, resolved_at = now,
           o_can_appeal = (auto_resolve_threshold s * 5 \<le> d_amount d)\<rparr>"
  let ?s2 = "s\<lparr>disputes := (disputes s)(k \<mapsto>
                 d\<lparr>d_status := STATUS_RESOLVED, updated_at := now\<rparr>),
               dispute_outcomes := (dispute_outcomes s)(k \<mapsto> ?oc)\<rparr>"
  have ta: "(if v_outcome v = OUTCOME_SPLIT then udiv (d_amount d) 2
       else Inr (d_amount d))
      = Inr (if v_outcome v = OUTCOME_SPLIT then d_amount d div 2 else d_amount d)"
    by (simp add: udiv_def)
  note unfold = execute_ruling_def bnd_def asserts_def unwrap_def uadd_def umul_def Let_def
  have own: "sender = dr_contract_owner s"
  proof (rule ccontr)
    assume "sender \<noteq> dr_contract_owner s"
    with ok d asg v ta show False by (simp add: unfold split del: if_split)
  qed
  have st: "d_status d = STATUS_UNDER_REVIEW"
  proof (rule ccontr)
    assume "d_status d \<noteq> STATUS_UNDER_REVIEW"
    with ok d asg v ta own show False by (simp add: unfold split del: if_split)
  qed
  have thr: "auto_resolve_threshold s * 5 \<le> UINT_MAX"
  proof (rule ccontr)
    assume "\<not> auto_resolve_threshold s * 5 \<le> UINT_MAX"
    with ok d asg v ta own st show False by (simp add: unfold split del: if_split)
  qed
  obtain s3 where u1: "update_party_reputation (advertiser d) ?won_a ?s2 = Inr s3"
  proof (cases "update_party_reputation (advertiser d) ?won_a ?s2")
    case (Inl e)
    with ok d asg v ta own st thr show ?thesis by (simp add: unfold split del: if_split)
  next
    case (Inr x)
    then show ?thesis by (rule that)
  qed
  let ?ha = "updated_record ?won_a (party_record s (advertiser d))"
  have "party_record ?s2 (advertiser d) = party_record s (advertiser d)"
    by (rule party_record_cong) simp
  with update_party_reputation_Inr [OF u1]
  have s3: "s3 = ?s2\<lparr>dispute_history := (dispute_history s)(advertiser d \<mapsto> ?ha)\<rparr>"
    by simp
  obtain s4 where u2: "update_party_reputation (publisher d) ?won_p s3 = Inr s4"
  proof (cases "update_party_reputation (publisher d) ?won_p s3")
    case (Inl e)
    with ok d asg v ta own st thr u1 show ?thesis by (simp add: unfold split del: if_split)
  next
    case (Inr x)
    then show ?thesis by (rule that)
  qed
  let ?hp = "updated_record ?won_p (party_record
      (s\<lparr>dispute_history := (dispute_history s)(advertiser d \<mapsto> ?ha)\<rparr>) (publisher d))"
  have "party_record s3 (publisher d)
      = party_record (s\<lparr>dispute_history := (dispute_history s)(advertiser d \<mapsto> ?ha)\<rparr>)
          (publisher d)"
    unfolding s3 by (rule party_record_cong) simp
  with update_party_reputation_Inr [OF u2]
  have s4: "s4 = ?s2\<lparr>dispute_history := (dispute_history s)
      (advertiser d \<mapsto> ?ha, publisher d \<mapsto> ?hp)\<rparr>"
    by (simp add: s3)
  then have a4: "arbitrator_assignments s4 k = Some asg"
    and st4: "arbitrator_stats s4 = arbitrator_stats s"
    and res4: "total_disputes_resolved s4 = total_disputes_resolved s"
    using asg by simp_all
  obtain ast where ast: "arbitrator_stats s (arbitrator asg) = Some ast"
  proof (cases "arbitrator_stats s (arbitrator asg)")
    case None
    with ok d asg v ta own st thr u1 u2 a4 st4 show ?thesis
      by (simp add: unfold split del: if_split)
  next
    case (Some x)
    then show ?thesis by (rule that)
  qed
  have cr: "cases_resolved ast + 1 \<le> UINT_MAX"
  proof (rule ccontr)
    assume "\<not> cases_resolved ast + 1 \<le> UINT_MAX"
    with ok d asg v ta own st thr u1 u2 a4 st4 ast show False
      by (simp add: unfold split del: if_split)
  qed
  have res: "total_disputes_resolved s + 1 \<le> UINT_MAX"
  proof (rule ccontr)
    assume "\<not> total_disputes_resolved s + 1 \<le> UINT_MAX"
    with ok d asg v ta own st thr u1 u2 a4 st4 res4 ast cr show False
      by (simp add: unfold split del: if_split)
  qed
  from ok d asg v ta own st thr u1 u2 a4 st4 res4 ast cr res
  have "s' = s4\<lparr>arbitrator_stats := (arbitrator_stats s)(arbitrator asg \<mapsto>
                  ast\<lparr>cases_resolved := cases_resolved ast + 1\<rparr>),
                total_disputes_resolved := total_disputes_resolved s + 1\<rparr>"
    by (simp add: unfold split del: if_split)
  then have "s' = s\<lparr>disputes := (disputes s)(k \<mapsto>
                    d\<lparr>d_status := STATUS_RESOLVED, updated_at := now\<rparr>),
                dispute_outcomes := (dispute_outcomes s)(k \<mapsto> ?oc),
                dispute_history := (dispute_history s)
                  (advertiser d \<mapsto> ?ha, publisher d \<mapsto> ?hp),
                arbitrator_stats := (arbitrator_stats s)(arbitrator asg \<mapsto>
                  ast\<lparr>cases_resolved := cases_resolved ast + 1\<rparr>),
                total_disputes_resolved := total_disputes_resolved s + 1\<rparr>"
    by (simp add: s4)
  with d asg ast show ?thesis
    by (intro that [of d asg ast ?ha ?hp ?oc]) (simp_all, blast+)
qed

subsection \<open>The invariant of the dispute registry\<close>

lemma dispute_ok_execute_ruling:
  assumes inv: "dispute_ok s" and ok: "execute_ruling sender now k s = Inr (r, s')"
  shows "dispute_ok s'"
  using ok
proof (rule execute_ruling_Inr)
  fix d asg ast oc ha hp
  assume d: "disputes s k = Some d"
    and asg: "arbitrator_assignments s k = Some asg"
    and ast: "arbitrator_stats s (arbitrator asg) = Some ast"
    and ha: "\<exists>w. ha = updated_record w (party_record s (advertiser d))"
    and hp: "\<exists>w. hp = updated_record w (party_record
           (s\<lparr>dispute_history := (dispute_history s)(advertiser d \<mapsto> ha)\<rparr>) (publisher d))"
    and s': "s' = s\<lparr>disputes := (disputes s)(k \<mapsto>
                    d\<lparr>d_status := STATUS_RESOLVED, updated_at := now\<rparr>),
                dispute_outcomes := (dispute_outcomes s)(k \<mapsto> oc),
                dispute_history := (dispute_history s)
                  (advertiser d \<mapsto> ha, publisher d \<mapsto> hp),
                arbitrator_stats := (arbitrator_stats s)(arbitrator asg \<mapsto>
                  ast\<lparr>cases_resolved := cases_resolved ast + 1\<rparr>),
                total_disputes_resolved := total_disputes_resolved s + 1\<rparr>"
  from inv have scores: "\<forall>p h. dispute_history s p = Some h \<longrightarrow> reputation_score h \<le> 100"
    by (simp add: dispute_ok_def)
  from ha scores have sa: "reputation_score ha \<le> 100"
    by (auto intro!: updated_record_score party_record_score)
  with scores have "\<forall>p h. dispute_history
        (s\<lparr>dispute_history := (dispute_history s)(advertiser d \<mapsto> ha)\<rparr>) p = Some h
      \<longrightarrow> reputation_score h \<le> 100"
    by simp
  with hp have sp: "reputation_score hp \<le> 100"
    by (auto intro!: updated_record_score party_record_score)
  from inv d have parties: "advertiser d \<noteq> publisher d"
    by (simp add: dispute_ok_def)
  have "\<forall>k' d'. disputes s' k' = Some d' \<longrightarrow> advertiser d' \<noteq> publisher d'"
    using inv parties by (auto simp: s' dispute_ok_def)
  moreover have "\<forall>k' a. arbitrator_assignments s' k' = Some a \<longrightarrow>
      arbitrator_stats s' (arbitrator a) \<noteq> None"
    using inv by (auto simp: s' dispute_ok_def)
  moreover have "\<forall>p h. dispute_history s' p = Some h \<longrightarrow> reputation_score h \<le> 100"
    using scores sa sp by (auto simp: s')
  ultimately show "dispute_ok s'"
    unfolding dispute_ok_def by blast
qed

lemma dispute_ok_open_dispute:
  assumes "dispute_ok s" and "open_dispute sender now c p t a x f s = Inr (v, s')"
  shows "dispute_ok s'"
  using assms
  by (cases f) (auto simp: open_dispute_def ctl_defs Let_def dispute_ok_def split: if_splits)

lemma dispute_ok_submit_evidence:
  assumes "dispute_ok s" and "submit_evidence sender now k t h x s = Inr (v, s')"
  shows "dispute_ok s'"
proof (cases "disputes s k")
  case None
  with assms(2) show ?thesis by (simp add: submit_evidence_def unwrap_def)
next
  case (Some d)
  with assms show ?thesis
    by (auto simp: submit_evidence_def ctl_defs Let_def dispute_ok_def split: if_splits)
qed

lemma dispute_ok_assign_arbitrator:
  assumes "dispute_ok s" and "assign_arbitrator sender now k a s = Inr (v, s')"
  shows "dispute_ok s'"
proof (cases "disputes s k")
  case None
  with assms(2) show ?thesis by (simp add: assign_arbitrator_def unwrap_def)
next
  case (Some d)
  with assms show ?thesis
    by (cases "arbitrator_stats s a")
       (auto simp: assign_arbitrator_def ctl_defs Let_def dispute_ok_def split: if_splits)
qed

lemma dispute_ok_vote_on_dispute:
  assumes "dispute_ok s" and "vote_on_dispute sender now k oc r s = Inr (v, s')"
  shows "dispute_ok s'"
proof (cases "disputes s k")
  case None
  with assms(2) show ?thesis by (simp add: vote_on_dispute_def unwrap_def)
next
  case d: (Some d)
  show ?thesis
  proof (cases "arbitrator_assignments s k")
    case None
    with assms(2) d show ?thesis by (simp add: vote_on_dispute_def unwrap_def)
  next
    case (Some a)
    with assms d show ?thesis
      by (auto simp: vote_on_dispute_def ctl_defs dispute_ok_def split: if_splits)
  qed
qed

lemma dispute_ok_appeal_decision:
  assumes "dispute_ok s" and "appeal_decision sender now k r s = Inr (v, s')"
  shows "dispute_ok s'"
proof (cases "disputes s k")
  case None
  with assms(2) show ?thesis by (simp add: appeal_decision_def unwrap_def)
next
  case d: (Some d)
  show ?thesis
  proof (cases "dispute_outcomes s k")
    case None
    with assms(2) d show ?thesis by (simp add: appeal_decision_def unwrap_def)
  next
    case (Some oc)
    with assms d show ?thesis
      by (auto simp: appeal_decision_def ctl_defs dispute_ok_def split: if_splits)
  qed
qed

lemma dispute_ok_auto_resolve_dispute:
  assumes "dispute_ok s" and "auto_resolve_dispute sender now k s = Inr (v, s')"
  shows "dispute_ok s'"
proof (cases "disputes s k")
  case None
  with assms(2) show ?thesis by (simp add: auto_resolve_dispute_def unwrap_def)
next
  case (Some d)
  with assms show ?thesis
    by (auto simp: auto_resolve_dispute_def ctl_defs dispute_ok_def split: if_splits)
qed

lemma dispute_ok_close_dispute:
  assumes "dispute_ok s" and "close_dispute sender now k s = Inr (v, s')"
  shows "dispute_ok s'"
proof (cases "disputes s k")
  case None
  with assms(2) show ?thesis by (simp add: close_dispute_def unwrap_def)
next
  case (Some d)
  with assms show ?thesis
    by (auto simp: close_dispute_def ctl_defs dispute_ok_def split: if_splits)
qed

lemma dispute_ok_register_arbitrator:
  assumes "dispute_ok s" and "register_arbitrator sender a s = Inr (v, s')"
  shows "dispute_ok s'"
  using assms
  by (auto simp: register_arbitrator_def asserts_def dispute_ok_def split: if_splits)

lemma dispute_ok_deactivate_arbitrator:
  assumes "dispute_ok s" and "deactivate_arbitrator sender a s = Inr (v, s')"
  shows "dispute_ok s'"
proof (cases "arbitrator_stats s a")
  case None
  with assms(2) show ?thesis by (simp add: deactivate_arbitrator_def unwrap_def)
next
  case (Some st)
  with assms show ?thesis
    by (auto simp: deactivate_arbitrator_def ctl_defs dispute_ok_def split: if_splits)
qed

lemma dispute_ok_set_auto_resolve_threshold:
  assumes "dispute_ok s" and "set_auto_resolve_threshold sender n s = Inr (v, s')"
  shows "dispute_ok s'"
  using assms
  by (auto simp: set_auto_resolve_threshold_def asserts_def dispute_ok_def split: if_splits)

lemma dispute_ok_set_appeal_window:
  assumes "dispute_ok s" and "set_appeal_window sender n s = Inr (v, s')"
  shows "dispute_ok s'"
  using assms
  by (auto simp: set_appeal_window_def asserts_def dispute_ok_def split: if_splits)

lemma dispute_ok_step:
  assumes "dispute_ok s"
  shows "dispute_ok (dispute_step sender now call s)"
  by (rule dispute_step_cases)
     (fact assms dispute_ok_open_dispute [OF assms] dispute_ok_submit_evidence [OF assms]
        dispute_ok_assign_arbitrator [OF assms] dispute_ok_vote_on_dispute [OF assms]
        dispute_ok_execute_ruling [OF assms] dispute_ok_appeal_decision [OF assms]
        dispute_ok_auto_resolve_dispute [OF assms] dispute_ok_close_dispute [OF assms]
        dispute_ok_register_arbitrator [OF assms] dispute_ok_deactivate_arbitrator [OF assms]
        dispute_ok_set_auto_resolve_threshold [OF assms]
        dispute_ok_set_appeal_window [OF assms])+

lemma dispute_ok_run: "dispute_ok s \<Longrightarrow> dispute_ok (dispute_run s txs)"
  by (induction s txs rule: dispute_run.induct) (simp_all add: dispute_ok_step)

lemma dispute_ok_init: "dispute_ok (dispute_init owner)"
  by (simp add: dispute_ok_def dispute_init_def)

section \<open>execute-ruling\<close>

lemma under_review_state_facts:
  "disputes under_review_state 1 =
     Some \<lparr>d_campaign_id = 1, advertiser = ''D'', publisher = ''P'', dispute_type = 1,
           d_amount = 2000000, d_status = 2, d_description = ''unpaid'', d_created_at = 0,
           updated_at = 1, resolution_deadline = 1440\<rparr>"
  "dr_contract_owner under_review_state = ''O''"
  "arbitrator_assignments under_review_state 1 =
     Some \<lparr>arbitrator = ''A'', assigned_at = 1, decision_deadline = 721\<rparr>"
  "arbitrator_votes under_review_state (1, ''A'') =
     Some \<lparr>v_outcome = 2, v_reasoning = ''delivered'', voted_at = 2\<rparr>"
  "auto_resolve_threshold under_review_state = 100000"
  "total_disputes_resolved under_review_state = 0"
  "arbitrator_stats under_review_state ''A'' =
     Some \<lparr>total_cases = 1, cases_resolved = 0, reputation = 100, active = True\<rparr>"
  "dispute_history under_review_state ''D'' = None"
  "dispute_history under_review_state ''P'' = None"
  by (simp_all add: under_review_state_def ruling_txs_def dispute_eval)

text \<open>
  C7, as the code has it. In every state reached from deployment, when the platform owner
  calls \<^verbatim>\<open>execute-ruling\<close> on a dispute in UnderReview whose assigned arbitrator has voted:
  if \<open>5 * threshold\<close> exceeds the \<^verbatim>\<open>uint\<close> range (the owner may set any threshold), the call
  aborts; if it fits, and so do the counters the call increments, the call returns
  \<^verbatim>\<open>(ok true)\<close> and
  \<^item> records the outcome of the vote: the winner is the advertiser for AdvertiserWins, the
    publisher for PublisherWins (the contract owner otherwise), the amount transferred is
    the dispute's amount, halved by integer division for Split, and \<^verbatim>\<open>can-appeal\<close> is
    \<open>amount \<ge> 5 * threshold\<close>;
  \<^item> sets each party's reputation score to \<open>min 100 (score + 5)\<close> if the vote names it the
    winner and to \<open>score - 5\<close>, not below 0, otherwise (the score of a party without a
    history record is 100);
  \<^item> adds one to the arbitrator's resolved-case count;
  \<^item> sets the dispute's status to Resolved.
\<close>

theorem execute_ruling_records_outcome:
  assumes "disputes (dispute_run (dispute_init owner) txs) k = Some d"
    and "d_status d = STATUS_UNDER_REVIEW"
    and "sender = dr_contract_owner (dispute_run (dispute_init owner) txs)"
    and "arbitrator_assignments (dispute_run (dispute_init owner) txs) k = Some asg"
    and "arbitrator_votes (dispute_run (dispute_init owner) txs) (k, arbitrator asg) = Some v"
  shows "(UINT_MAX < auto_resolve_threshold (dispute_run (dispute_init owner) txs) * 5 \<longrightarrow>
      execute_ruling sender now k (dispute_run (dispute_init owner) txs) = Inl RuntimeAbort)
   \<and> (auto_resolve_threshold (dispute_run (dispute_init owner) txs) * 5 \<le> UINT_MAX
      \<and> total_disputes_resolved (dispute_run (dispute_init owner) txs) < UINT_MAX
      \<and> (\<forall>st. arbitrator_stats (dispute_run (dispute_init owner) txs) (arbitrator asg)
                = Some st \<longrightarrow> cases_resolved st < UINT_MAX)
      \<and> (\<forall>p \<in> {advertiser d, publisher d}.
           total_disputes (party_record (dispute_run (dispute_init owner) txs) p) < UINT_MAX
         \<and> disputes_won (party_record (dispute_run (dispute_init owner) txs) p) < UINT_MAX
         \<and> disputes_lost (party_record (dispute_run (dispute_init owner) txs) p) < UINT_MAX)
    \<longrightarrow> (\<exists>s' st.
      execute_ruling sender now k (dispute_run (dispute_init owner) txs) = Inr (True, s')
    \<and> dispute_outcomes s' k = Some
        \<lparr>o_outcome = v_outcome v,
         winner = (if v_outcome v = OUTCOME_ADVERTISER_WINS then advertiser d
                   else if v_outcome v = OUTCOME_PUBLISHER_WINS then publisher d
                   else dr_contract_owner (dispute_run (dispute_init owner) txs)),
         amount_transferred = (if v_outcome v = OUTCOME_SPLIT then d_amount d div 2
                               else d_amount d),
         o_reasoning = v_reasoning v, resolved_at = now,
         o_can_appeal =
           (d_amount d \<ge> 5 * auto_resolve_threshold (dispute_run (dispute_init owner) txs))\<rparr>
    \<and> map_option reputation_score (dispute_history s' (advertiser d)) = Some
        (if v_outcome v = OUTCOME_ADVERTISER_WINS
         then min 100 (current_score (dispute_run (dispute_init owner) txs) (advertiser d) + 5)
         else if 5 \<le> current_score (dispute_run (dispute_init owner) txs) (advertiser d)
         then current_score (dispute_run (dispute_init owner) txs) (advertiser d) - 5
         else 0)
    \<and> map_option reputation_score (dispute_history s' (publisher d)) = Some
        (if v_outcome v = OUTCOME_PUBLISHER_WINS
         then min 100 (current_score (dispute_run (dispute_init owner) txs) (publisher d) + 5)
         else if 5 \<le> current_score (dispute_run (dispute_init owner) txs) (publisher d)
         then current_score (dispute_run (dispute_init owner) txs) (publisher d) - 5
         else 0)
    \<and> arbitrator_stats (dispute_run (dispute_init owner) txs) (arbitrator asg) = Some st
    \<and> arbitrator_stats s' (arbitrator asg)
        = Some (st\<lparr>cases_resolved := cases_resolved st + 1\<rparr>)
    \<and> disputes s' k = Some (d\<lparr>d_status := STATUS_RESOLVED, updated_at := now\<rparr>)))"
  (is "(?over \<longrightarrow> ?abort) \<and> (?fits \<longrightarrow> ?success)")
proof (intro conjI impI)
  assume "?over"
  with assms show "?abort"
    by (simp add: execute_ruling_def ctl_defs Let_def)
next
  let ?s = "dispute_run (dispute_init owner) txs"
  assume fits: "?fits"
  then have limit: "auto_resolve_threshold ?s * 5 \<le> UINT_MAX"
    and resolved: "total_disputes_resolved ?s < UINT_MAX"
    and stats: "\<forall>st. arbitrator_stats ?s (arbitrator asg) = Some st
                  \<longrightarrow> cases_resolved st < UINT_MAX"
    and counters: "\<forall>p \<in> {advertiser d, publisher d}.
           total_disputes (party_record ?s p) < UINT_MAX
         \<and> disputes_won (party_record ?s p) < UINT_MAX
         \<and> disputes_lost (party_record ?s p) < UINT_MAX"
    by simp_all
  have inv: "dispute_ok ?s"
    using dispute_ok_init by (rule dispute_ok_run)
  with assms(1) have parties: "advertiser d \<noteq> publisher d"
    by (simp add: dispute_ok_def)
  from inv assms(4) obtain st where st: "arbitrator_stats ?s (arbitrator asg) = Some st"
    unfolding dispute_ok_def by blast
  with stats have cr: "cases_resolved st < UINT_MAX"
    by simp
  from inv have scores: "\<forall>p h. dispute_history ?s p = Some h \<longrightarrow> reputation_score h \<le> 100"
    by (simp add: dispute_ok_def)
  note result = execute_ruling_result [OF assms(1,2,3,4,5) st parties limit resolved cr,
      where now = now]
  have "execute_ruling sender now k ?s = Inr (True,
      ?s\<lparr>disputes := (disputes ?s)(k \<mapsto> d\<lparr>d_status := STATUS_RESOLVED, updated_at := now\<rparr>),
        dispute_outcomes := (dispute_outcomes ?s)(k \<mapsto>
          \<lparr>o_outcome = v_outcome v,
           winner = (if v_outcome v = OUTCOME_ADVERTISER_WINS then advertiser d
                     else if v_outcome v = OUTCOME_PUBLISHER_WINS then publisher d
                     else dr_contract_owner ?s),
           amount_transferred = (if v_outcome v = OUTCOME_SPLIT then d_amount d div 2
                                 else d_amount d),
           o_reasoning = v_reasoning v, resolved_at = now,
           o_can_appeal = (auto_resolve_threshold ?s * 5 \<le> d_amount d)\<rparr>),
        dispute_history := (dispute_history ?s)
          (advertiser d \<mapsto> updated_record (v_outcome v = OUTCOME_ADVERTISER_WINS)
                             (party_record ?s (advertiser d)),
           publisher d \<mapsto> updated_record (v_outcome v = OUTCOME_PUBLISHER_WINS)
                             (party_record ?s (publisher d))),
        arbitrator_stats := (arbitrator_stats ?s)(arbitrator asg \<mapsto>
          st\<lparr>cases_resolved := cases_resolved st + 1\<rparr>),
        total_disputes_resolved := total_disputes_resolved ?s + 1\<rparr>)"
    using counters by (intro result party_record_score [OF scores]) simp_all
  then show "?success"
    using parties st
    by (simp add: current_score_party_record updated_record_def mult.commute)
qed

theorem execute_ruling_records_outcome_witness:
  "\<exists>s'. execute_ruling ''O'' 3 1 under_review_state = Inr (True, s')
     \<and> dispute_outcomes s' 1 = Some
         \<lparr>o_outcome = OUTCOME_PUBLISHER_WINS, winner = ''P'', amount_transferred = 2000000,
          o_reasoning = ''delivered'', resolved_at = 3, o_can_appeal = True\<rparr>
     \<and> map_option reputation_score (dispute_history s' ''P'') = Some 100
     \<and> map_option reputation_score (dispute_history s' ''D'') = Some 95
     \<and> map_option cases_resolved (arbitrator_stats s' ''A'') = Some 1
     \<and> map_option d_status (disputes s' 1) = Some STATUS_RESOLVED"
proof -
  let ?d = "\<lparr>d_campaign_id = 1, advertiser = ''D'', publisher = ''P'', dispute_type = 1,
             d_amount = 2000000, d_status = 2, d_description = ''unpaid'', d_created_at = 0,
             updated_at = 1, resolution_deadline = 1440\<rparr>"
  let ?asg = "\<lparr>arbitrator = ''A'', assigned_at = 1, decision_deadline = 721\<rparr>"
  let ?v = "\<lparr>v_outcome = 2, v_reasoning = ''delivered'', voted_at = 2\<rparr>"
  note facts = under_review_state_facts [unfolded under_review_state_def]
  have review: "d_status ?d = STATUS_UNDER_REVIEW"
    by (simp add: dispute_const_defs)
  have owner: "''O'' = dr_contract_owner (dispute_run (dispute_init ''O'') ruling_txs)"
    using facts(2) by simp
  have vote: "arbitrator_votes (dispute_run (dispute_init ''O'') ruling_txs)
      (1, arbitrator ?asg) = Some ?v"
    using facts(4) by simp
  note inst = execute_ruling_records_outcome [OF facts(1) review owner facts(3) vote,
      where now = 3, THEN conjunct2]
  from inst facts show ?thesis
    by (auto simp: under_review_state_def current_score_def party_record_def
          dispute_const_defs UINT_MAX_def)
qed

text \<open>
  The claim as stated fails: the owner's call on a dispute in UnderReview whose arbitrator
  has voted need not record anything. After the owner has set the auto-resolve threshold
  to \<open>2 ^ 127\<close>, \<open>5 * threshold\<close> leaves the \<^verbatim>\<open>uint\<close> range, \<^verbatim>\<open>execute-ruling\<close> aborts where it
  computes \<^verbatim>\<open>can-appeal\<close>, and the dispute stays in UnderReview with no outcome.
\<close>

theorem execute_ruling_counterexample:
  "map_option d_status (disputes (dispute_run (dispute_init ''O'') huge_threshold_txs) 1)
     = Some STATUS_UNDER_REVIEW
   \<and> dr_contract_owner (dispute_run (dispute_init ''O'') huge_threshold_txs) = ''O''
   \<and> map_option arbitrator
       (arbitrator_assignments (dispute_run (dispute_init ''O'') huge_threshold_txs) 1)
       = Some ''A''
   \<and> map_option v_outcome
       (arbitrator_votes (dispute_run (dispute_init ''O'') huge_threshold_txs) (1, ''A''))
       = Some OUTCOME_PUBLISHER_WINS
   \<and> execute_ruling ''O'' 4 1 (dispute_run (dispute_init ''O'') huge_threshold_txs)
       = Inl RuntimeAbort
   \<and> dispute_outcomes
       (dispute_run (dispute_init ''O'') (huge_threshold_txs @ [(''O'', 4, ExecuteRuling 1)]))
       1 = None
   \<and> map_option d_status
       (disputes
          (dispute_run (dispute_init ''O'') (huge_threshold_txs @ [(''O'', 4, ExecuteRuling 1)]))
          1)
       = Some STATUS_UNDER_REVIEW"
  by (simp add: huge_threshold_txs_def ruling_txs_def dispute_eval)

end
